theory Spec2Isabelle
  imports Main "HOL-Library.List_Lexorder" "HOL-Library.Sublist"
begin

section \<open>Python values used by clout.py\<close>

text \<open>
  A Python \<open>str\<close> is a sequence of Unicode code points, so it is modelled as a list of
  natural numbers: \<open>len\<close> is \<open>length\<close>, \<open>s[:n]\<close> for a literal \<open>n\<close> is \<open>take n s\<close>, and
  \<open>+\<close> is \<open>@\<close>. The order of \<open>HOL-Library.List_Lexorder\<close> on such lists is Python's
  order on strings (code point by code point, a proper prefix first).
\<close>

type_synonym pystr = "nat list"

definition ascii :: "string \<Rightarrow> pystr" where
  "ascii s = map of_char s"

abbreviation NL :: pystr where
  "NL \<equiv> [10]"

text \<open>The exception classes that the modelled calls can raise.\<close>

datatype pyexn =
    ValueError | RuntimeError | AttributeError | TypeError | KeyError
  | FileNotFoundError | RequestException | ParserRejectedMarkup

text \<open>\<open>xs[:n]\<close> for an integer variable \<open>n\<close>: a negative bound counts from the end.\<close>

definition py_slice_to :: "int \<Rightarrow> 'a list \<Rightarrow> 'a list" where
  "py_slice_to n xs =
     (if 0 \<le> n then take (nat n) xs else take (length xs - nat (- n)) xs)"

text \<open>\<open>sub in s\<close> on strings.\<close>

fun py_in :: "pystr \<Rightarrow> pystr \<Rightarrow> bool" where
  "py_in sub [] = (sub = [])"
| "py_in sub (c # cs) = (prefix sub (c # cs) \<or> py_in sub cs)"

text \<open>
  \<open>s.split(sep, 1)\<close>: the list of the text before the first occurrence of \<open>sep\<close> and the
  text after it, or the one-element list \<open>[s]\<close> when \<open>sep\<close> does not occur. An empty
  separator raises \<open>ValueError\<close>.
\<close>

fun split_first :: "pystr \<Rightarrow> pystr \<Rightarrow> pystr list" where
  "split_first sep [] = [[]]"
| "split_first sep (c # cs) =
     (if prefix sep (c # cs) then [[], drop (length sep) (c # cs)]
      else (case split_first sep cs of
              [] \<Rightarrow> []
            | h # rest \<Rightarrow> (c # h) # rest))"

definition py_split1 :: "pystr \<Rightarrow> pystr \<Rightarrow> pyexn + pystr list" where
  "py_split1 s sep = (if sep = [] then Inl ValueError else Inr (split_first sep s))"

text \<open>
  \<open>s.replace(old, new)\<close>: every occurrence of \<open>old\<close>, found from left to right without
  overlap, is replaced. With an empty \<open>old\<close>, \<open>new\<close> is put before every character and
  at the end.
\<close>

function py_replace :: "pystr \<Rightarrow> pystr \<Rightarrow> pystr \<Rightarrow> pystr" where
  "py_replace old new [] = (if old = [] then new else [])"
| "py_replace old new (c # cs) =
     (if old = [] then new @ c # py_replace old new cs
      else if prefix old (c # cs)
           then new @ py_replace old new (drop (length old) (c # cs))
      else c # py_replace old new cs)"
  by pat_completeness auto
termination
  by (relation "measure (\<lambda>(old, new, s). length s)") auto

text \<open>
  \<open>str.isspace\<close> on one code point: the characters that \<open>s.strip()\<close> removes.
\<close>

definition py_isspace :: "nat \<Rightarrow> bool" where
  "py_isspace c \<longleftrightarrow>
     (9 \<le> c \<and> c \<le> 13) \<or> (28 \<le> c \<and> c \<le> 32) \<or> c = 133 \<or> c = 160 \<or> c = 5760 \<or>
     (8192 \<le> c \<and> c \<le> 8202) \<or> c = 8232 \<or> c = 8233 \<or> c = 8239 \<or> c = 8287 \<or>
     c = 12288"

definition py_strip :: "pystr \<Rightarrow> pystr" where
  "py_strip s = rev (dropWhile py_isspace (rev (dropWhile py_isspace s)))"

text \<open>\<open>sep.join(xs)\<close>.\<close>

fun py_join :: "pystr \<Rightarrow> pystr list \<Rightarrow> pystr" where
  "py_join sep [] = []"
| "py_join sep [x] = x"
| "py_join sep (x # y # ys) = x @ sep @ py_join sep (y # ys)"

section \<open>Prompt composition\<close>

text \<open>\<open>final_trim_prompt\<close> (lines 117-121).\<close>

definition final_trim_prompt :: "pystr \<Rightarrow> int \<Rightarrow> pystr" where
  "final_trim_prompt prompt max_chars =
     (if int (length prompt) \<le> max_chars then prompt else py_slice_to max_chars prompt)"

text \<open>
  The f-string of \<open>generate_one_variant\<close> (lines 131-167), cut at its three
  placeholders. The dashes of the source are the code points 8211 and 8212.
\<close>

definition template_before_label :: pystr where
  "template_before_label =
    NL @
    ascii ''You are a senior editorial content strategist who writes high-impact, human, long-form LinkedIn posts.'' @ NL @
    NL @
    ascii ''Variant: ''"

definition template_before_instr :: pystr where
  "template_before_instr =
    NL @
    ascii ''Style Instruction: ''"

definition template_before_combined :: pystr where
  "template_before_combined =
    NL @
    NL @
    ascii ''Write a polished, original, human-sounding LinkedIn post of **700'' @ [8211] @ ascii ''1000 words** (aim for ~800 words).'' @ NL @
    ascii ''This must NOT summarize the blog. Instead, it must:'' @ NL @
    ascii ''- Expand on the ideas, frameworks, insights, and themes found in the blog content.'' @ NL @
    ascii ''- Integrate and synthesize insights from BOTH the blog and the SERP-scraped external pages.'' @ NL @
    ascii ''- Show intellectual depth, critical thinking, and editorial expertise.'' @ NL @
    ascii ''- Use **long, flowing, high-quality paragraphs** (5'' @ [8211] @ ascii ''7 sentences each), not bullet points.'' @ NL @
    ascii ''- Use a **LinkedIn-appropriate tone**: engaging, reflective, and expert '' @ [8212] @ ascii '' not academic or robotic.'' @ NL @
    ascii ''- Use narrative openings, transitions, and emotional or strategic framing.'' @ NL @
    ascii ''- Offer a clear perspective, interpretation, or actionable direction.'' @ NL @
    ascii ''- Avoid lists unless absolutely necessary; rely on narrative explanation and analysis.'' @ NL @
    ascii ''- DO NOT repeat the same sentence structures or rephrase the blog.'' @ NL @
    ascii ''- DO NOT mention that you're combining sources.'' @ NL @
    NL @
    ascii ''Use this combined text ONLY as background knowledge to enrich arguments, examples, frameworks, and narrative:'' @ NL @
    ascii ''========'' @ NL"

text \<open>The text after the background: its closing rule, then the output envelope.\<close>

definition template_rule :: pystr where
  "template_rule =
    NL @
    ascii ''========'' @ NL @
    NL"

definition template_envelope :: pystr where
  "template_envelope =
    ascii ''Follow this EXACT output structure '' @ [8212] @ ascii '' this is mandatory:'' @ NL @
    NL @
    ascii ''###'' @ NL @
    ascii ''HEADLINE:'' @ NL @
    ascii ''<one compelling headline, 5'' @ [8211] @ ascii ''12 words>'' @ NL @
    NL @
    ascii ''POST:'' @ NL @
    ascii ''<full LinkedIn post, 700'' @ [8211] @ ascii ''1000 words, long paragraphs, deeply synthesizing blog + SERP insights>'' @ NL @
    ascii ''###'' @ NL @
    NL @
    ascii ''Do NOT place anything before HEADLINE:'' @ NL @
    ascii ''Do NOT place anything after the final ###.'' @ NL"

definition prompt_template :: "pystr \<Rightarrow> pystr \<Rightarrow> pystr \<Rightarrow> pystr" where
  "prompt_template variant_label variant_instr combined =
     template_before_label @ variant_label @
     template_before_instr @ variant_instr @
     template_before_combined @ combined @
     template_rule @ template_envelope"

text \<open>
  Lines 126-167 of \<open>generate_one_variant\<close>: the trims of the two sources, the background
  and the prompt before its final trim; then line 171, the prompt sent to the model.
\<close>

definition combined_text :: "pystr \<Rightarrow> pystr \<Rightarrow> pystr" where
  "combined_text blog_text serp_text =
     take 5000 blog_text @ NL @ NL @ take 7000 serp_text"

definition composed_prompt :: "pystr \<Rightarrow> pystr \<Rightarrow> pystr \<Rightarrow> pystr \<Rightarrow> pystr" where
  "composed_prompt variant_label variant_instr blog_text serp_text =
     prompt_template variant_label variant_instr (combined_text blog_text serp_text)"

definition sent_prompt :: "pystr \<Rightarrow> pystr \<Rightarrow> pystr \<Rightarrow> pystr \<Rightarrow> pystr" where
  "sent_prompt variant_label variant_instr blog_text serp_text =
     final_trim_prompt (composed_prompt variant_label variant_instr blog_text serp_text) 7000"

section \<open>Generation driver\<close>

text \<open>
  The model handle is a function from the prompt to the stream it produces: a finite
  sequence of events, each a chunk or an exception raised by the call or by the
  iteration (nothing after a raise is ever read). A chunk is a dict or something else;
  under \<open>"choices"\<close> a dict holds a list of choices (\<open>None\<close> here when the key is absent
  or its value is not a list); a choice is a dict, whose \<open>"text"\<close> may be absent, a string
  or another value, or it is not a dict.
\<close>

datatype text_value = Text_str pystr | Text_other

datatype choice = Choice_dict "text_value option" | Choice_other

datatype chunk = Chunk_dict "choice list option" | Chunk_other

datatype event = Yield chunk | Raise pyexn

type_synonym llm = "pystr \<Rightarrow> event list"

record generated_post =
  headline :: pystr
  body :: pystr

text \<open>
  The body of the loop (lines 184-187): the token a chunk adds to \<open>full_text\<close>, none when
  the chunk is skipped. \<open>choices[0].get\<close> on a choice that is not a dict raises
  \<open>AttributeError\<close>; adding a token that is not a string raises \<open>TypeError\<close>.
\<close>

fun chunk_token :: "chunk \<Rightarrow> pyexn + pystr option" where
  "chunk_token Chunk_other = Inr None"
| "chunk_token (Chunk_dict None) = Inr None"
| "chunk_token (Chunk_dict (Some [])) = Inr None"
| "chunk_token (Chunk_dict (Some (Choice_other # _))) = Inl AttributeError"
| "chunk_token (Chunk_dict (Some (Choice_dict None # _))) = Inr (Some [])"
| "chunk_token (Chunk_dict (Some (Choice_dict (Some (Text_str token)) # _))) = Inr (Some token)"
| "chunk_token (Chunk_dict (Some (Choice_dict (Some Text_other) # _))) = Inl TypeError"

fun consume :: "event list \<Rightarrow> pystr \<Rightarrow> pyexn + pystr" where
  "consume [] full_text = Inr full_text"
| "consume (Raise e # _) full_text = Inl e"
| "consume (Yield c # rest) full_text =
     (case chunk_token c of
        Inl e \<Rightarrow> Inl e
      | Inr None \<Rightarrow> consume rest full_text
      | Inr (Some token) \<Rightarrow> consume rest (full_text @ token))"

text \<open>
  Lines 196-206: the parse of the accumulated text. Unpacking the result of \<open>split\<close>
  into two names raises \<open>ValueError\<close> unless it has two elements.
\<close>

definition parse_generated :: "pystr \<Rightarrow> pyexn + generated_post" where
  "parse_generated full_text =
     (if py_in (ascii ''POST:'') full_text then
        (case py_split1 full_text (ascii ''POST:'') of
           Inl e \<Rightarrow> Inl e
         | Inr [head_part, post_part] \<Rightarrow>
             Inr \<lparr>headline = py_strip (py_replace (ascii ''HEADLINE:'') [] head_part),
                  body = py_strip post_part\<rparr>
         | Inr _ \<Rightarrow> Inl ValueError)
      else Inr \<lparr>headline = ascii ''LinkedIn Post'', body = py_strip full_text\<rparr>)"

text \<open>
  \<open>generate_one_variant\<close> (lines 124-206). Only \<open>ValueError\<close> is caught around the
  stream; any other exception leaves the function.
\<close>

definition generate_one_variant ::
  "llm \<Rightarrow> pystr \<Rightarrow> pystr \<Rightarrow> pystr \<Rightarrow> pystr \<Rightarrow> pyexn + generated_post" where
  "generate_one_variant llm variant_label variant_instr blog_text serp_text =
     (case consume (llm (sent_prompt variant_label variant_instr blog_text serp_text)) [] of
        Inl e \<Rightarrow>
          (if e = ValueError then Inr \<lparr>headline = ascii ''ERROR'', body = []\<rparr> else Inl e)
      | Inr full_text \<Rightarrow> parse_generated full_text)"

section \<open>Configuration\<close>

text \<open>\<open>BLOG_URLS\<close> (lines 42-46) and \<open>VARIANTS\<close> (lines 49-53).\<close>

definition BLOG_URLS :: "pystr list" where
  "BLOG_URLS =
    [ascii ''https://pallavighxsh.wordpress.com/2025/01/28/ai-tone-consistency-in-brand-aligned-communication/'',
     ascii ''https://pallavighxsh.wordpress.com/2024/10/22/tone-it-down-can-ai-really-get-your-brand-voices-vibe/'',
     ascii ''https://pallavighxsh.wordpress.com/2024/07/08/on-generative-ai/'']"

definition VARIANTS :: "(pystr \<times> pystr) list" where
  "VARIANTS =
    [(ascii ''Thought Leadership'',
      ascii ''Write a senior thought-leadership piece: big-picture insights, implications, frameworks.''),
     (ascii ''Story Narrative'',
      ascii ''Write a story-driven narrative: open with a concise anecdote or scene, then connect to insights.''),
     (ascii ''Actionable / Framework'',
      ascii ''Write an actionable post with a clear framework or 3'' @ [8211] @ ascii ''5 tactical steps the reader can apply.'')]"

section \<open>Entity extraction\<close>

text \<open>
  The two patterns of \<open>extract_entities\<close> use character classes, concatenation, greedy
  repetition with a lower bound (\<open>+\<close>, \<open>*\<close>, \<open>{2,}\<close>) and the word boundary \<open>\b\<close>; the
  group \<open>(?: ...)\<close> does not capture, so \<open>re.findall\<close> returns the whole matches.
\<close>

datatype regex =
    Cls "nat \<Rightarrow> bool"
  | Seq regex regex
  | Repeat nat regex
  | Word_boundary

text \<open>
  A position in the text: the character before it, if any, and the text from it on.
\<close>

type_synonym mstate = "nat option \<times> pystr"

definition in_range :: "char \<Rightarrow> char \<Rightarrow> nat \<Rightarrow> bool" where
  "in_range lo hi c \<longleftrightarrow> of_char lo \<le> c \<and> c \<le> of_char hi"

definition is_chr :: "char \<Rightarrow> nat \<Rightarrow> bool" where
  "is_chr ch c \<longleftrightarrow> c = of_char ch"

text \<open>
  \<open>\w\<close> of a string pattern: the ASCII letters, digits and underscore, and the
  alphanumeric characters beyond ASCII, which the Unicode tables decide: they are the
  parameter \<open>uw\<close>.
\<close>

definition is_word :: "(nat \<Rightarrow> bool) \<Rightarrow> nat \<Rightarrow> bool" where
  "is_word uw c \<longleftrightarrow>
     (if c < 128
      then in_range CHR ''a'' CHR ''z'' c \<or> in_range CHR ''A'' CHR ''Z'' c \<or>
           in_range CHR ''0'' CHR ''9'' c \<or> is_chr CHR ''_'' c
      else uw c)"

fun at_boundary :: "(nat \<Rightarrow> bool) \<Rightarrow> mstate \<Rightarrow> bool" where
  "at_boundary uw (prev, text) \<longleftrightarrow>
     (case prev of None \<Rightarrow> False | Some c \<Rightarrow> is_word uw c) \<noteq>
     (case text of [] \<Rightarrow> False | c # _ \<Rightarrow> is_word uw c)"

fun step_class :: "(nat \<Rightarrow> bool) \<Rightarrow> mstate \<Rightarrow> mstate list" where
  "step_class p (prev, []) = []"
| "step_class p (prev, c # cs) = (if p c then [(Some c, cs)] else [])"

text \<open>
  Greedy repetition, at least \<open>n\<close> times: the positions where it can end, in the order
  the backtracking matcher tries them (more iterations first). The fuel is the length of
  the remaining text, and an iteration that consumes nothing is not repeated.
\<close>

fun greedy :: "(mstate \<Rightarrow> mstate list) \<Rightarrow> nat \<Rightarrow> nat \<Rightarrow> mstate \<Rightarrow> mstate list" where
  "greedy step n 0 st = (if n = 0 then [st] else [])"
| "greedy step n (Suc fuel) st =
     concat (map (greedy step (n - 1) fuel)
               (filter (\<lambda>st'. length (snd st') < length (snd st)) (step st))) @
     (if n = 0 then [st] else [])"

text \<open>
  The positions where a match of the pattern starting at a position can end, in the
  order of the backtracking matcher: the first one is the match.
\<close>

primrec ends :: "(nat \<Rightarrow> bool) \<Rightarrow> regex \<Rightarrow> mstate \<Rightarrow> mstate list" where
  "ends uw (Cls p) = step_class p"
| "ends uw (Seq a b) = (\<lambda>st. concat (map (ends uw b) (ends uw a st)))"
| "ends uw (Repeat n r) = (\<lambda>st. greedy (ends uw r) n (length (snd st)) st)"
| "ends uw Word_boundary = (\<lambda>st. if at_boundary uw st then [st] else [])"

text \<open>
  \<open>re.findall\<close>: the matches from left to right, each search starting where the last
  match ended (one character further after an empty match).
\<close>

function findall_from :: "(nat \<Rightarrow> bool) \<Rightarrow> regex \<Rightarrow> mstate \<Rightarrow> pystr list" where
  "findall_from uw r (prev, text) =
     (case ends uw r (prev, text) of
        [] \<Rightarrow> (case text of [] \<Rightarrow> [] | c # cs \<Rightarrow> findall_from uw r (Some c, cs))
      | e # _ \<Rightarrow>
          (if length (snd e) < length text
           then take (length text - length (snd e)) text # findall_from uw r e
           else [] # (case text of [] \<Rightarrow> [] | c # cs \<Rightarrow> findall_from uw r (Some c, cs))))"
  by pat_completeness auto
termination
  by (relation "measure (\<lambda>(uw, r, st). length (snd st))") auto

definition re_findall :: "(nat \<Rightarrow> bool) \<Rightarrow> regex \<Rightarrow> pystr \<Rightarrow> pystr list" where
  "re_findall uw r text = findall_from uw r (None, text)"

text \<open>\<open>[A-Za-z0-9._%+-]+@[A-Za-z0-9.-]+\.[A-Za-z]{2,}\<close> (line 91).\<close>

definition email_regex :: regex where
  "email_regex =
     Seq (Repeat 1 (Cls (\<lambda>c. in_range CHR ''A'' CHR ''Z'' c \<or> in_range CHR ''a'' CHR ''z'' c \<or>
                          in_range CHR ''0'' CHR ''9'' c \<or> is_chr CHR ''.'' c \<or>
                          is_chr CHR ''_'' c \<or> is_chr CHR ''%'' c \<or> is_chr CHR ''+'' c \<or>
                          is_chr CHR ''-'' c)))
    (Seq (Cls (is_chr CHR ''@''))
    (Seq (Repeat 1 (Cls (\<lambda>c. in_range CHR ''A'' CHR ''Z'' c \<or> in_range CHR ''a'' CHR ''z'' c \<or>
                          in_range CHR ''0'' CHR ''9'' c \<or> is_chr CHR ''.'' c \<or>
                          is_chr CHR ''-'' c)))
    (Seq (Cls (is_chr CHR ''.''))
         (Repeat 2 (Cls (\<lambda>c. in_range CHR ''A'' CHR ''Z'' c \<or> in_range CHR ''a'' CHR ''z'' c))))))"

text \<open>\<open>\b[A-Z][a-z]+(?: [A-Z][a-z]+)*\b\<close> (line 92).\<close>

definition proper_noun_regex :: regex where
  "proper_noun_regex =
     Seq Word_boundary
    (Seq (Cls (in_range CHR ''A'' CHR ''Z''))
    (Seq (Repeat 1 (Cls (in_range CHR ''a'' CHR ''z'')))
    (Seq (Repeat 0 (Seq (Cls (is_chr CHR '' ''))
                   (Seq (Cls (in_range CHR ''A'' CHR ''Z''))
                        (Repeat 1 (Cls (in_range CHR ''a'' CHR ''z''))))))
         Word_boundary)))"

record entities =
  emails :: "pystr list"
  proper_nouns :: "pystr list"

text \<open>
  \<open>extract_entities\<close> (lines 90-94); \<open>sorted(set(xs))\<close> is the sorted list of the
  distinct elements.
\<close>

definition extract_entities :: "(nat \<Rightarrow> bool) \<Rightarrow> pystr \<Rightarrow> entities" where
  "extract_entities uw text =
     \<lparr>emails = sort (remdups (re_findall uw email_regex text)),
      proper_nouns = sort (remdups (re_findall uw proper_noun_regex text))\<rparr>"

section \<open>The outside world\<close>

text \<open>A decoded JSON document (\<open>r.json()\<close>); an object lists its keys once each.\<close>

datatype json =
    JNull | JBool bool | JNum int | JStr pystr
  | JArr "json list" | JObj "(pystr \<times> json) list"

fun truthy :: "json \<Rightarrow> bool" where
  "truthy JNull = False"
| "truthy (JBool b) = b"
| "truthy (JNum n) = (n \<noteq> 0)"
| "truthy (JStr s) = (s \<noteq> [])"
| "truthy (JArr xs) = (xs \<noteq> [])"
| "truthy (JObj kvs) = (kvs \<noteq> [])"

text \<open>
  What the script reads from its environment and the libraries it calls:
  \<^item> \<open>SERPAPI_KEY\<close>, \<open>LLAMA_MODEL_PATH\<close>: the two environment variables, \<open>None\<close> when unset;
  \<^item> \<open>path_exists\<close>: \<open>Path(p).exists()\<close>;
  \<^item> \<open>Llama\<close>: the constructor of \<open>llama_cpp\<close>, \<open>None\<close> when the import failed;
  \<^item> \<open>http_get_ok\<close>: lines 61-62, \<open>requests.get(url, headers=HEADERS, timeout=20)\<close> followed
    by \<open>r.raise_for_status()\<close>: the exception either of them raises, or \<open>r.text\<close>;
  \<^item> \<open>html_paragraphs\<close>: \<open>BeautifulSoup(text, "html.parser").find_all("p")\<close>, each
    paragraph given by the strings of its text nodes in document order, or the exception
    the parser raises;
  \<^item> \<open>serp_get_json\<close>: lines 74-79, the search request and \<open>r.json()\<close>;
  \<^item> \<open>validators_url\<close>: whether \<open>validators.url\<close> accepts a string;
    \<open>validators_url_other\<close>: what it does on a value that is not a string, which it never
    accepts: it raises (\<open>Some e\<close>) or returns a false value (\<open>None\<close>);
  \<^item> \<open>unicode_word\<close>: the alphanumeric code points beyond ASCII.
\<close>

record env =
  SERPAPI_KEY :: "pystr option"
  LLAMA_MODEL_PATH :: "pystr option"
  path_exists :: "pystr \<Rightarrow> bool"
  Llama :: "(pystr \<Rightarrow> pyexn + llm) option"
  http_get_ok :: "pystr \<Rightarrow> pyexn + pystr"
  html_paragraphs :: "pystr \<Rightarrow> pyexn + pystr list list"
  serp_get_json :: "pystr \<Rightarrow> int \<Rightarrow> pyexn + json"
  validators_url :: "pystr \<Rightarrow> bool"
  validators_url_other :: "json \<Rightarrow> pyexn option"
  unicode_word :: "nat \<Rightarrow> bool"

section \<open>Content fetcher\<close>

text \<open>
  \<open>p.get_text(separator, strip=...)\<close> of a paragraph with the given text nodes: with
  \<open>strip\<close>, every string is stripped and the empty ones are left out.
\<close>

definition get_text :: "pystr \<Rightarrow> bool \<Rightarrow> pystr list \<Rightarrow> pystr" where
  "get_text separator strip strings =
     py_join separator
       (if strip then filter (\<lambda>s. s \<noteq> []) (map py_strip strings) else strings)"

text \<open>\<open>scrape_url\<close> (lines 59-67): the parse stands after the \<open>try\<close> statement.\<close>

definition scrape_url :: "env \<Rightarrow> pystr \<Rightarrow> pyexn + pystr" where
  "scrape_url env url =
     (case http_get_ok env url of
        Inl e \<Rightarrow> Inr []
      | Inr text \<Rightarrow>
          (case html_paragraphs env text of
             Inl e \<Rightarrow> Inl e
           | Inr ps \<Rightarrow>
               Inr (py_join (NL @ NL)
                      (map (get_text (ascii '' '') True)
                         (filter (\<lambda>p. get_text [] True p \<noteq> []) ps)))))"

section \<open>Search\<close>

text \<open>
  \<open>data.get("organic_results", [])[:num]\<close> as the list the loop of line 81 runs over.
  A value without \<open>get\<close> raises \<open>AttributeError\<close>, a value that cannot be sliced
  \<open>TypeError\<close>; a string is sliced, and iterated character by character.
\<close>

definition organic_results :: "json \<Rightarrow> int \<Rightarrow> pyexn + json list" where
  "organic_results data num =
     (case data of
        JObj kvs \<Rightarrow>
          (case map_of kvs (ascii ''organic_results'') of
             None \<Rightarrow> Inr (py_slice_to num [])
           | Some (JArr xs) \<Rightarrow> Inr (py_slice_to num xs)
           | Some (JStr s) \<Rightarrow> Inr (map (\<lambda>c. JStr [c]) (py_slice_to num s))
           | Some _ \<Rightarrow> Inl TypeError)
      | _ \<Rightarrow> Inl AttributeError)"

text \<open>The loop of lines 81-84, \<open>links\<close> being the list built so far.\<close>

fun collect_links :: "env \<Rightarrow> json list \<Rightarrow> pystr list \<Rightarrow> pyexn + pystr list" where
  "collect_links env [] links = Inr links"
| "collect_links env (item # items) links =
     (case item of
        JObj kvs \<Rightarrow>
          (case map_of kvs (ascii ''link'') of
             None \<Rightarrow> collect_links env items links
           | Some link \<Rightarrow>
               (if \<not> truthy link then collect_links env items links
                else (case link of
                        JStr s \<Rightarrow>
                          collect_links env items
                            (if validators_url env s then links @ [s] else links)
                      | _ \<Rightarrow>
                          (case validators_url_other env link of
                             Some e \<Rightarrow> Inl e
                           | None \<Rightarrow> collect_links env items links))))
      | _ \<Rightarrow> Inl AttributeError)"

text \<open>\<open>serpapi_search\<close> (lines 70-87): the bare \<open>except\<close> turns every exception into \<open>[]\<close>.\<close>

definition serpapi_search :: "env \<Rightarrow> pystr \<Rightarrow> int \<Rightarrow> pystr list" where
  "serpapi_search env query num =
     (case SERPAPI_KEY env of
        None \<Rightarrow> []
      | Some key \<Rightarrow>
          (if key = [] then []
           else (case serp_get_json env query num of
                   Inl e \<Rightarrow> []
                 | Inr data \<Rightarrow>
                     (case organic_results data num of
                        Inl e \<Rightarrow> []
                      | Inr items \<Rightarrow>
                          (case collect_links env items [] of
                             Inl e \<Rightarrow> []
                           | Inr links \<Rightarrow> links)))))"

section \<open>Model loading\<close>

text \<open>\<open>load_llm\<close> (lines 100-114); the constructor may raise.\<close>

definition load_llm :: "env \<Rightarrow> pyexn + llm option" where
  "load_llm env =
     (case LLAMA_MODEL_PATH env of
        None \<Rightarrow> Inr None
      | Some path \<Rightarrow>
          (if path = [] \<or> \<not> path_exists env path then Inr None
           else (case Llama env of
                   None \<Rightarrow> Inr None
                 | Some new_llama \<Rightarrow>
                     (case new_llama path of
                        Inl e \<Rightarrow> Inl e
                      | Inr handle \<Rightarrow> Inr (Some handle)))))"

section \<open>Result store\<close>

text \<open>
  The workbook file: its sheets in order, each a title and its rows of cells; the store
  is \<open>None\<close> while the file \<open>EXCEL_FILE\<close> does not exist. Titles are unique in a workbook.
  Loading, changing and saving the workbook is one step on this state; a row is kept as
  the strings handed to \<open>ws.append\<close>.
\<close>

type_synonym row = "pystr list"

type_synonym workbook = "(pystr \<times> row list) list"

type_synonym store = "workbook option"

definition linkedin_header :: row where
  "linkedin_header =
     [ascii ''source_url'', ascii ''variant'', ascii ''headline'', ascii ''body'',
      ascii ''serp_emails'', ascii ''serp_proper_nouns'', ascii ''serp_links'']"

definition serp_debug_header :: row where
  "serp_debug_header = [ascii ''source_url'', ascii ''serp_links'', ascii ''serp_text'']"

definition sheet_append :: "pystr \<Rightarrow> row \<Rightarrow> workbook \<Rightarrow> workbook" where
  "sheet_append title r wb =
     map (\<lambda>(t, rows). if t = title then (t, rows @ [r]) else (t, rows)) wb"

text \<open>
  \<open>init_excel\<close> (lines 212-228): the new workbook's first sheet is renamed and gets the
  header; \<open>create_sheet\<close> adds an empty sheet, to which nothing is appended here.
\<close>

definition init_excel :: "store \<Rightarrow> store" where
  "init_excel st =
     (case st of
        None \<Rightarrow> Some [(ascii ''linkedin'', [linkedin_header]), (ascii ''serp_debug'', [])]
      | Some wb \<Rightarrow> Some wb)"

text \<open>The dict handed to \<open>append_to_excel_row\<close> by \<open>main\<close>, with all its seven keys.\<close>

record output_record =
  row_source_url :: pystr
  row_variant :: pystr
  row_headline :: pystr
  row_body :: pystr
  row_serp_emails :: "pystr list"
  row_serp_proper_nouns :: "pystr list"
  row_serp_links :: "pystr list"

definition output_cells :: "output_record \<Rightarrow> row" where
  "output_cells r =
     [row_source_url r, row_variant r, row_headline r, row_body r,
      py_join (ascii '', '') (row_serp_emails r),
      py_join (ascii '', '') (row_serp_proper_nouns r),
      py_join (ascii '', '') (row_serp_links r)]"

text \<open>\<open>append_to_excel_row\<close> (lines 231-243).\<close>

definition append_to_excel_row :: "store \<Rightarrow> output_record \<Rightarrow> pyexn + store" where
  "append_to_excel_row st r =
     (case st of
        None \<Rightarrow> Inl FileNotFoundError
      | Some wb \<Rightarrow>
          (case map_of wb (ascii ''linkedin'') of
             None \<Rightarrow> Inl KeyError
           | Some rows \<Rightarrow> Inr (Some (sheet_append (ascii ''linkedin'') (output_cells r) wb))))"

text \<open>
  \<open>json.dumps\<close> of a list of strings, with its default \<open>ensure_ascii\<close>: every character
  outside the printable ASCII range, the quote (34) and the backslash (92) are escaped,
  code points above \<open>0xFFFF\<close> as a surrogate pair.
\<close>

definition hex4 :: "nat \<Rightarrow> pystr" where
  "hex4 n =
     map (\<lambda>k. of_char (''0123456789abcdef'' ! (n div 16 ^ k mod 16))) [3, 2, 1, 0]"

definition json_escape :: "nat \<Rightarrow> pystr" where
  "json_escape c =
     (if c = 34 then [92, 34] else if c = 92 then [92, 92]
      else if c = 8 then [92] @ ascii ''b'' else if c = 12 then [92] @ ascii ''f''
      else if c = 10 then [92] @ ascii ''n'' else if c = 13 then [92] @ ascii ''r''
      else if c = 9 then [92] @ ascii ''t''
      else if 32 \<le> c \<and> c \<le> 126 then [c]
      else if c < 65536 then [92] @ ascii ''u'' @ hex4 c
      else [92] @ ascii ''u'' @ hex4 (55296 + (c - 65536) div 1024 mod 1024) @
           [92] @ ascii ''u'' @ hex4 (56320 + (c - 65536) mod 1024))"

definition json_dumps :: "pystr list \<Rightarrow> pystr" where
  "json_dumps xs =
     ascii ''['' @
     py_join (ascii '', '') (map (\<lambda>s. [34] @ concat (map json_escape s) @ [34]) xs) @
     ascii '']''"

text \<open>\<open>save_serp_debug\<close> (lines 246-254).\<close>

definition save_serp_debug :: "store \<Rightarrow> pystr \<Rightarrow> pystr list \<Rightarrow> pystr \<Rightarrow> pyexn + store" where
  "save_serp_debug st url serp_links serp_text =
     (case st of
        None \<Rightarrow> Inl FileNotFoundError
      | Some wb \<Rightarrow>
          (let wb1 =
                 (if ascii ''serp_debug'' \<notin> set (map fst wb)
                  then sheet_append (ascii ''serp_debug'') serp_debug_header
                         (wb @ [(ascii ''serp_debug'', [])])
                  else wb)
           in Inr (Some (sheet_append (ascii ''serp_debug'')
                           [url, json_dumps serp_links, take 5000 serp_text] wb1))))"

section \<open>The run\<close>

text \<open>
  A run ends normally with the store it leaves (\<open>Inr\<close>), or by an exception that nothing
  catches, with the store as it is then (\<open>Inl\<close>).
\<close>

type_synonym run = "(pyexn \<times> store) + store"

text \<open>Lines 277-280: the text of the result pages (\<open>time.sleep\<close> changes no value).\<close>

fun scrape_serp :: "env \<Rightarrow> pystr list \<Rightarrow> pystr \<Rightarrow> pyexn + pystr" where
  "scrape_serp env [] serp_text = Inr serp_text"
| "scrape_serp env (link # links) serp_text =
     (case scrape_url env link of
        Inl e \<Rightarrow> Inl e
      | Inr t \<Rightarrow> scrape_serp env links (serp_text @ t @ NL @ NL))"

text \<open>Lines 289-302: the loop over the variants.\<close>

fun variants_loop ::
  "llm \<Rightarrow> pystr \<Rightarrow> pystr \<Rightarrow> pystr \<Rightarrow> entities \<Rightarrow> pystr list \<Rightarrow> (pystr \<times> pystr) list \<Rightarrow>
   store \<Rightarrow> run" where
  "variants_loop llm url blog_text serp_text ents serp_links [] st = Inr st"
| "variants_loop llm url blog_text serp_text ents serp_links
     ((variant_label, variant_instr) # variants) st =
     (case generate_one_variant llm variant_label variant_instr blog_text serp_text of
        Inl e \<Rightarrow> Inl (e, st)
      | Inr result \<Rightarrow>
          (case append_to_excel_row st
                  \<lparr>row_source_url = url, row_variant = variant_label,
                   row_headline = headline result, row_body = body result,
                   row_serp_emails = emails ents,
                   row_serp_proper_nouns = proper_nouns ents,
                   row_serp_links = serp_links\<rparr> of
             Inl e \<Rightarrow> Inl (e, st)
           | Inr st' \<Rightarrow>
               variants_loop llm url blog_text serp_text ents serp_links variants st'))"

text \<open>Lines 267-302: the body of the loop over the URLs.\<close>

definition process_url :: "env \<Rightarrow> llm \<Rightarrow> pystr \<Rightarrow> store \<Rightarrow> run" where
  "process_url env llm url st =
     (case scrape_url env url of
        Inl e \<Rightarrow> Inl (e, st)
      | Inr blog_text \<Rightarrow>
          (if blog_text = [] then Inr st
           else
             (let serp_links = serpapi_search env (take 80 blog_text) 5 in
              case scrape_serp env serp_links [] of
                Inl e \<Rightarrow> Inl (e, st)
              | Inr serp_text \<Rightarrow>
                  (let ents = extract_entities (unicode_word env) serp_text in
                   case save_serp_debug st url serp_links serp_text of
                     Inl e \<Rightarrow> Inl (e, st)
                   | Inr st' \<Rightarrow>
                       variants_loop llm url blog_text serp_text ents serp_links
                         VARIANTS st'))))"

fun urls_loop :: "env \<Rightarrow> llm \<Rightarrow> pystr list \<Rightarrow> store \<Rightarrow> run" where
  "urls_loop env llm [] st = Inr st"
| "urls_loop env llm (url # urls) st =
     (case process_url env llm url st of
        Inl x \<Rightarrow> Inl x
      | Inr st' \<Rightarrow> urls_loop env llm urls st')"

text \<open>\<open>main\<close> (lines 260-304).\<close>

definition main :: "env \<Rightarrow> store \<Rightarrow> run" where
  "main env st =
     (let st0 = init_excel st in
      case load_llm env of
        Inl e \<Rightarrow> Inl (e, st0)
      | Inr None \<Rightarrow> Inr st0
      | Inr (Some llm) \<Rightarrow> urls_loop env llm BLOG_URLS st0)"

text \<open>
  The rows of a sheet of the store (none when the file or the sheet is missing), and
  whether the fetch of a source item returned text that is not empty.
\<close>

definition sheet_rows :: "pystr \<Rightarrow> store \<Rightarrow> row list" where
  "sheet_rows title st =
     (case st of
        None \<Rightarrow> []
      | Some wb \<Rightarrow> (case map_of wb title of None \<Rightarrow> [] | Some rows \<Rightarrow> rows))"

definition has_sheet :: "pystr \<Rightarrow> store \<Rightarrow> bool" where
  "has_sheet title st =
     (case st of None \<Rightarrow> False | Some wb \<Rightarrow> title \<in> set (map fst wb))"

definition fetched :: "env \<Rightarrow> pystr \<Rightarrow> bool" where
  "fetched env url = (case scrape_url env url of Inl e \<Rightarrow> False | Inr t \<Rightarrow> t \<noteq> [])"

section \<open>Sample inputs\<close>

text \<open>
  Model handles: one whose call raises a given exception, and one that streams given
  tokens, each in a chunk of the usual shape \<open>{"choices": [{"text": token}]}\<close>.
\<close>

definition raising_llm :: "pyexn \<Rightarrow> llm" where
  "raising_llm e prompt = [Raise e]"

definition text_chunk :: "pystr \<Rightarrow> chunk" where
  "text_chunk token = Chunk_dict (Some [Choice_dict (Some (Text_str token))])"

definition replying_llm :: "pystr list \<Rightarrow> llm" where
  "replying_llm tokens prompt = map (\<lambda>token. Yield (text_chunk token)) tokens"

text \<open>A reply in the requested envelope, and one without the body marker.\<close>

definition envelope_reply :: "pystr list" where
  "envelope_reply =
     [ascii ''###'' @ NL, ascii ''HEADLINE:'' @ NL, ascii ''Tone is a system'' @ NL @ NL,
      ascii ''POST:'' @ NL, ascii ''Brands speak in one voice.'' @ NL, ascii ''###'']"


text \<open>A reply that repeats the heading marker.\<close>

definition repeating_reply :: "pystr list" where
  "repeating_reply = [ascii ''HEADLINE: HEADLINE: Tone '', ascii ''POST: Voice'']"

text \<open>
  A world without a search key, in which the first blog URL serves one paragraph, every
  other request fails, and the model answers in the envelope.
\<close>

definition sample_env :: env where
  "sample_env =
     \<lparr>SERPAPI_KEY = None,
      LLAMA_MODEL_PATH = Some (ascii ''phi3.gguf''),
      path_exists = (\<lambda>p. True),
      Llama = Some (\<lambda>p. Inr (replying_llm envelope_reply)),
      http_get_ok = (\<lambda>url. if url = hd BLOG_URLS then Inr (ascii ''<p> On tone </p>'')
                           else Inl RequestException),
      html_paragraphs = (\<lambda>t. Inr [[ascii '' On tone '']]),
      serp_get_json = (\<lambda>q n. Inl RequestException),
      validators_url = (\<lambda>s. False),
      validators_url_other = (\<lambda>j. None),
      unicode_word = (\<lambda>c. False)\<rparr>"

text \<open>The same world with a parser that rejects the page.\<close>

definition rejecting_env :: env where
  "rejecting_env = sample_env\<lparr>html_paragraphs := (\<lambda>t. Inl ParserRejectedMarkup)\<rparr>"

text \<open>
  A world with a search key, whose search answers with seven results: five with links
  that the validator accepts or not, one without a link, one with an empty link.
\<close>

definition search_reply :: json where
  "search_reply =
     JObj [(ascii ''organic_results'',
            JArr [JObj [(ascii ''link'', JStr (ascii ''https://a.example/one''))],
                  JObj [(ascii ''title'', JStr (ascii ''no link''))],
                  JObj [(ascii ''link'', JStr (ascii ''not a url''))],
                  JObj [(ascii ''link'', JStr [])],
                  JObj [(ascii ''link'', JStr (ascii ''https://b.example/two''))],
                  JObj [(ascii ''link'', JStr (ascii ''https://c.example/three''))],
                  JObj [(ascii ''link'', JStr (ascii ''https://d.example/four''))]])]"

definition search_env :: env where
  "search_env =
     sample_env\<lparr>SERPAPI_KEY := Some (ascii ''key''),
                 serp_get_json := (\<lambda>q n. Inr search_reply),
                 validators_url := prefix (ascii ''https://'')\<rparr>"

text \<open>The world with a search key whose search request fails.\<close>

definition unreachable_search_env :: env where
  "unreachable_search_env = search_env\<lparr>serp_get_json := (\<lambda>q n. Inl RequestException)\<rparr>"

text \<open>The sample world with a model whose call raises \<open>RuntimeError\<close>.\<close>

definition aborting_env :: env where
  "aborting_env = sample_env\<lparr>Llama := Some (\<lambda>p. Inr (raising_llm RuntimeError))\<rparr>"

section \<open>Facts about the string operations\<close>

lemma py_in_sublist: "py_in sub s \<longleftrightarrow> sublist sub s"
  by (induction s) (auto simp: sublist_Cons_right)

lemma split_first_absent: "\<not> sublist sep s \<Longrightarrow> split_first sep s = [s]"
  by (induction s) (auto simp: sublist_Cons_right)

lemma first_occurrence_Cons:
  assumes "\<not> prefix sep (c # cs)" and "\<not> sublist sep (h @ butlast sep)"
    and "sep \<noteq> []" and "cs = h @ sep @ p"
  shows "\<not> sublist sep ((c # h) @ butlast sep)"
proof
  assume "sublist sep ((c # h) @ butlast sep)"
  then have "prefix sep (c # h @ butlast sep)"
    using assms(2) by (simp add: sublist_Cons_right)
  moreover have "c # cs = (c # h @ butlast sep) @ (last sep # p)"
    using assms(3,4) by simp
  then have "prefix (c # h @ butlast sep) (c # cs)"
    by (metis prefixI)
  ultimately show False
    using assms(1) by (meson prefix_order.trans)
qed

lemma split_first_present:
  "sep \<noteq> [] \<Longrightarrow> sublist sep s \<Longrightarrow>
   \<exists>h p. split_first sep s = [h, p] \<and> s = h @ sep @ p \<and> \<not> sublist sep (h @ butlast sep)"
proof (induction s)
  case Nil
  then show ?case by simp
next
  case (Cons c cs)
  show ?case
  proof (cases "prefix sep (c # cs)")
    case True
    then have e: "c # cs = [] @ sep @ drop (length sep) (c # cs)"
      by (auto simp: prefix_def)
    have "length (butlast sep) < length sep"
      using Cons.prems(1) by simp
    then have n: "\<not> sublist sep ([] @ butlast sep)"
      by (metis append_Nil sublist_length_le not_le)
    have "split_first sep (c # cs) = [[], drop (length sep) (c # cs)]"
      using True by simp
    with e n show ?thesis by blast
  next
    case False
    with Cons.prems have "sublist sep cs"
      by (auto simp: sublist_Cons_right)
    from Cons.IH[OF Cons.prems(1) this] obtain h p where
      hp: "split_first sep cs = [h, p]" "cs = h @ sep @ p" "\<not> sublist sep (h @ butlast sep)"
      by blast
    have "\<not> sublist sep ((c # h) @ butlast sep)"
      using first_occurrence_Cons[OF False hp(3) Cons.prems(1) hp(2)] .
    with False hp show ?thesis by auto
  qed
qed

lemma py_replace_absent:
  "old \<noteq> [] \<Longrightarrow> \<not> sublist old s \<Longrightarrow> py_replace old new s = s"
  by (induction s) (auto simp: sublist_Cons_right)

lemma py_replace_first:
  "old \<noteq> [] \<Longrightarrow> \<not> sublist old (h @ butlast old) \<Longrightarrow>
   py_replace old new (h @ old @ p) = h @ new @ py_replace old new p"
proof (induction h)
  case Nil
  then obtain c cs where "old @ p = c # cs"
    by (cases old) auto
  moreover have "prefix old (old @ p)"
    by simp
  ultimately show ?case
    using Nil.prems(1) by (metis append_Nil append_eq_conv_conj py_replace.simps(2))
next
  case (Cons c h)
  have np: "\<not> prefix old (c # h @ old @ p)"
  proof
    assume "prefix old (c # h @ old @ p)"
    moreover have "length old \<le> length (c # h @ butlast old)"
      by simp
    moreover have "c # h @ old @ p = (c # h @ butlast old) @ (last old # p)"
      using Cons.prems(1) by simp
    ultimately have "prefix old (c # h @ butlast old)"
      by (metis prefix_length_prefix prefixI)
    then show False
      using Cons.prems(2) by (simp add: sublist_Cons_right)
  qed
  have "\<not> sublist old (h @ butlast old)"
    using Cons.prems(2) by (simp add: sublist_Cons_right)
  with Cons.IH Cons.prems(1) np show ?case
    by simp
qed

text \<open>
  Deleting a marker from segments joined by it gives the segments back, when the marker
  occurs nowhere else: not in a segment, and not across the end of a segment that a
  marker follows.
\<close>

lemma py_replace_join:
  "old \<noteq> [] \<Longrightarrow> segs \<noteq> [] \<Longrightarrow>
   list_all (\<lambda>seg. \<not> sublist old (seg @ butlast old)) (butlast segs) \<Longrightarrow>
   \<not> sublist old (last segs) \<Longrightarrow>
   py_replace old [] (py_join old segs) = concat segs"
proof (induction old segs rule: py_join.induct)
  case (1 sep)
  then show ?case by simp
next
  case (2 sep x)
  then show ?case by (simp add: py_replace_absent)
next
  case (3 sep x y ys)
  then have "py_replace sep [] (py_join sep (y # ys)) = concat (y # ys)"
    by simp
  moreover have "\<not> sublist sep (x @ butlast sep)"
    using "3.prems" by simp
  ultimately show ?case
    using "3.prems"(1) by (simp add: py_replace_first)
qed

lemma py_strip_decomp:
  "\<exists>l r. s = l @ py_strip s @ r \<and> list_all py_isspace l \<and> list_all py_isspace r"
proof -
  let ?m = "dropWhile py_isspace s"
  let ?l = "takeWhile py_isspace s"
  let ?r = "rev (takeWhile py_isspace (rev ?m))"
  have "rev ?m = takeWhile py_isspace (rev ?m) @ dropWhile py_isspace (rev ?m)"
    by simp
  then have "?m = py_strip s @ ?r"
    unfolding py_strip_def by (metis rev_append rev_rev_ident)
  then have "s = ?l @ py_strip s @ ?r"
    by (metis takeWhile_dropWhile_id)
  moreover have "list_all py_isspace ?l"
    by (simp add: list_all_iff) (meson set_takeWhileD)
  moreover have "list_all py_isspace ?r"
    by (simp add: list_all_iff) (meson set_takeWhileD)
  ultimately show ?thesis by blast
qed

lemma py_strip_ends:
  assumes ne: "py_strip s \<noteq> []"
  shows "\<not> py_isspace (hd (py_strip s)) \<and> \<not> py_isspace (last (py_strip s))"
proof -
  let ?d = "dropWhile py_isspace (rev (dropWhile py_isspace s))"
  have d: "?d \<noteq> []"
    using ne by (simp add: py_strip_def)
  have 1: "\<not> py_isspace (hd ?d)"
    using d by (rule hd_dropWhile)
  have l: "last (py_strip s) = hd ?d"
    using d by (simp add: py_strip_def last_rev)
  have "hd (py_strip s) = last ?d"
    using d by (simp add: py_strip_def hd_rev)
  moreover have "last ?d = last (rev (dropWhile py_isspace s))"
    by (metis d append_Nil2 last_appendR takeWhile_dropWhile_id)
  moreover have dn: "dropWhile py_isspace s \<noteq> []"
  proof
    assume "dropWhile py_isspace s = []"
    then have "?d = []"
      by (simp only: rev.simps(1) dropWhile.simps(1))
    with d show False by (simp only:)
  qed
  moreover have "last (rev (dropWhile py_isspace s)) = hd (dropWhile py_isspace s)"
    using dn by (simp add: last_rev)
  moreover have "\<not> py_isspace (hd (dropWhile py_isspace s))"
    using dn by (rule hd_dropWhile)
  ultimately show ?thesis
    using 1 l by simp
qed

lemma dropWhile_keeps:
  "xs \<noteq> [] \<Longrightarrow> \<not> P (hd xs) \<Longrightarrow> dropWhile P xs = xs"
  by (cases xs) simp_all

lemma py_strip_trimmed:
  assumes "s \<noteq> []" and "\<not> py_isspace (hd s)" and "\<not> py_isspace (last s)"
  shows "py_strip s = s"
proof -
  have 1: "dropWhile py_isspace s = s"
    using assms(1,2) by (rule dropWhile_keeps)
  have "rev s \<noteq> []" and "\<not> py_isspace (hd (rev s))"
    using assms(1,3) by (simp_all add: hd_rev)
  then have "dropWhile py_isspace (rev s) = rev s"
    by (rule dropWhile_keeps)
  with 1 show ?thesis
    by (simp add: py_strip_def)
qed

section \<open>Facts about the stream and the parse\<close>

lemma consume_raise:
  "list_all (\<lambda>c. \<exists>t. chunk_token c = Inr t) cs \<Longrightarrow>
   consume (map Yield cs @ Raise e # rest) acc = Inl e"
  by (induction cs arbitrary: acc) (auto split: option.splits)

lemma consume_replying:
  "consume (replying_llm tokens prompt) acc = Inr (acc @ concat tokens)"
  by (induction tokens arbitrary: acc) (simp_all add: replying_llm_def text_chunk_def)

lemma parse_generated_present:
  assumes "sublist (ascii ''POST:'') full"
  shows "\<exists>h p. full = h @ ascii ''POST:'' @ p \<and>
           \<not> sublist (ascii ''POST:'') (h @ butlast (ascii ''POST:'')) \<and>
           parse_generated full =
             Inr \<lparr>headline = py_strip (py_replace (ascii ''HEADLINE:'') [] h),
                  body = py_strip p\<rparr>"
proof -
  have ne: "ascii ''POST:'' \<noteq> []"
    by (simp add: ascii_def)
  from split_first_present[OF ne assms] obtain h p where
    hp: "split_first (ascii ''POST:'') full = [h, p]" "full = h @ ascii ''POST:'' @ p"
      "\<not> sublist (ascii ''POST:'') (h @ butlast (ascii ''POST:''))"
    by blast
  have "parse_generated full =
          Inr \<lparr>headline = py_strip (py_replace (ascii ''HEADLINE:'') [] h), body = py_strip p\<rparr>"
    using assms ne hp(1) by (simp add: parse_generated_def py_in_sublist py_split1_def)
  with hp(2,3) show ?thesis by blast
qed


lemma not_prefix_before_first:
  assumes "sep \<noteq> []" and "\<not> sublist sep ((c # h) @ butlast sep)"
  shows "\<not> prefix sep (c # h @ sep @ p)"
proof
  assume "prefix sep (c # h @ sep @ p)"
  moreover have "length sep \<le> length (c # h @ butlast sep)"
    by simp
  moreover have "c # h @ sep @ p = (c # h @ butlast sep) @ (last sep # p)"
    using assms(1) by simp
  ultimately have "prefix sep (c # h @ butlast sep)"
    by (metis prefix_length_prefix prefixI)
  then show False
    using assms(2) by (simp add: sublist_Cons_right)
qed

lemma split_first_at:
  "sep \<noteq> [] \<Longrightarrow> \<not> sublist sep (h @ butlast sep) \<Longrightarrow>
   split_first sep (h @ sep @ p) = [h, p]"
proof (induction h)
  case Nil
  then obtain c cs where "sep @ p = c # cs"
    by (cases sep) auto
  moreover have "prefix sep (sep @ p)"
    by simp
  ultimately show ?case
    by (metis append_Nil append_eq_conv_conj split_first.simps(2))
next
  case (Cons c h)
  have "\<not> prefix sep (c # h @ sep @ p)"
    using not_prefix_before_first[OF Cons.prems] .
  moreover have "\<not> sublist sep (h @ butlast sep)"
    using Cons.prems(2) by (simp add: sublist_Cons_right)
  ultimately show ?case
    using Cons.IH Cons.prems(1) by simp
qed

lemma parse_generated_at:
  assumes "\<not> sublist (ascii ''POST:'') (h @ butlast (ascii ''POST:''))"
  shows "parse_generated (h @ ascii ''POST:'' @ p) =
           Inr \<lparr>headline = py_strip (py_replace (ascii ''HEADLINE:'') [] h),
                body = py_strip p\<rparr>"
proof -
  have ne: "ascii ''POST:'' \<noteq> []"
    by (simp add: ascii_def)
  have "sublist (ascii ''POST:'') (h @ ascii ''POST:'' @ p)"
    by (meson sublist_appendI)
  then show ?thesis
    using split_first_at[OF ne assms] ne
    by (simp add: parse_generated_def py_in_sublist py_split1_def)
qed

section \<open>Facts about the prompt\<close>

lemma length_template_before_label: "length template_before_label = 114"
  by (simp add: template_before_label_def ascii_def)

lemma length_template_before_instr: "length template_before_instr = 20"
  by (simp add: template_before_instr_def ascii_def)

lemma length_template_before_combined: "length template_before_combined = 1057"
  by (simp add: template_before_combined_def ascii_def)

lemma length_template_rule: "length template_rule = 11"
  by (simp add: template_rule_def ascii_def)

lemma length_template_envelope: "length template_envelope = 299"
  by (simp add: template_envelope_def ascii_def)


lemma final_trim_long: "7000 < length p \<Longrightarrow> final_trim_prompt p 7000 = take 7000 p"
  by (simp add: final_trim_prompt_def py_slice_to_def)


lemma length_combined_text:
  "length (combined_text blog serp) = min (length blog) 5000 + 2 + min (length serp) 7000"
  by (simp add: combined_text_def)

lemma length_variant:
  "(l, i) \<in> set VARIANTS \<Longrightarrow> 106 \<le> length l + length i \<and> length l + length i \<le> 113"
  by (auto simp: VARIANTS_def ascii_def)

section \<open>The claims about prompt composition and the generation driver\<close>



text \<open>
  What the handler of lines 189-192 does catch: a \<open>ValueError\<close> raised by the call of
  the model or by the iteration over its stream, after chunks that were consumed without
  an error, gives the sentinel \<open>{headline: "ERROR", body: ""}\<close>.
\<close>

lemma value_error_gives_sentinel:
  assumes "llm (sent_prompt variant_label variant_instr blog_text serp_text) =
             map Yield cs @ Raise ValueError # rest"
    and "list_all (\<lambda>c. \<exists>t. chunk_token c = Inr t) cs"
  shows "generate_one_variant llm variant_label variant_instr blog_text serp_text =
           Inr \<lparr>headline = ascii ''ERROR'', body = []\<rparr>"
  using assms by (simp add: generate_one_variant_def consume_raise)

text \<open>
  C4, on the code. A failure of the model call is to give the sentinel
  \<open>{headline: "ERROR", body: ""}\<close> and not to reach the caller, and the comment of the
  handler reads \<open>token overflow or other LLaMA error\<close>. The handler names \<open>ValueError\<close>
  only: a call that raises \<open>ValueError\<close> gives the sentinel, while the same call raising
  the backend's \<open>RuntimeError\<close> leaves \<open>generate_one_variant\<close> with that exception.
\<close>

theorem generation_failure_propagates:
  "generate_one_variant (raising_llm ValueError) [] [] [] [] =
     Inr \<lparr>headline = ascii ''ERROR'', body = []\<rparr> \<and>
   generate_one_variant (raising_llm RuntimeError) [] [] [] [] = Inl RuntimeError"
  by (simp add: generate_one_variant_def raising_llm_def)



text \<open>
  C9. Whatever the model wrote before the first \<open>POST:\<close>, read as segments separated by
  the occurrences of \<open>HEADLINE:\<close>, the headline is the concatenation of all the segments,
  stripped: every marker is deleted and everything else is kept, a leading \<open>###\<close>
  included. The body is everything after the first \<open>POST:\<close>, stripped, a closing \<open>###\<close>
  included. Stripping removes white space at the two ends only.
\<close>

theorem parser_keeps_other_envelope_text:
  assumes "consume (llm (sent_prompt variant_label variant_instr blog_text serp_text)) [] =
             Inr (py_join (ascii ''HEADLINE:'') segs @ ascii ''POST:'' @ rest)"
    and "segs \<noteq> []"
    and "list_all (\<lambda>seg. \<not> sublist (ascii ''HEADLINE:'') (seg @ butlast (ascii ''HEADLINE:'')))
           (butlast segs)"
    and "\<not> sublist (ascii ''HEADLINE:'') (last segs)"
    and "\<not> sublist (ascii ''POST:'')
             (py_join (ascii ''HEADLINE:'') segs @ butlast (ascii ''POST:''))"
  shows "generate_one_variant llm variant_label variant_instr blog_text serp_text =
           Inr \<lparr>headline = py_strip (concat segs), body = py_strip rest\<rparr> \<and>
         (\<exists>l r. concat segs = l @ py_strip (concat segs) @ r \<and>
            list_all py_isspace l \<and> list_all py_isspace r) \<and>
         (\<exists>l r. rest = l @ py_strip rest @ r \<and>
            list_all py_isspace l \<and> list_all py_isspace r)"
proof -
  have ne: "ascii ''HEADLINE:'' \<noteq> []"
    by (simp add: ascii_def)
  have "py_replace (ascii ''HEADLINE:'') [] (py_join (ascii ''HEADLINE:'') segs) = concat segs"
    using py_replace_join[OF ne assms(2,3,4)] .
  then have "generate_one_variant llm variant_label variant_instr blog_text serp_text =
               Inr \<lparr>headline = py_strip (concat segs), body = py_strip rest\<rparr>"
    using assms(1) parse_generated_at[OF assms(5), of rest]
    by (simp add: generate_one_variant_def)
  then show ?thesis
    using py_strip_decomp[of "concat segs"] py_strip_decomp[of rest] by simp
qed

theorem parser_keeps_other_envelope_text_witness:
  "consume (replying_llm envelope_reply (sent_prompt [] [] [] [])) [] =
     Inr (py_join (ascii ''HEADLINE:'') [ascii ''###'' @ NL, NL @ ascii ''Tone is a system'' @ NL @ NL] @
          ascii ''POST:'' @ NL @ ascii ''Brands speak in one voice.'' @ NL @ ascii ''###'') \<and>
   generate_one_variant (replying_llm envelope_reply) [] [] [] [] =
     Inr \<lparr>headline = ascii ''###'' @ NL @ NL @ ascii ''Tone is a system'',
          body = ascii ''Brands speak in one voice.'' @ NL @ ascii ''###''\<rparr> \<and>
   consume (replying_llm repeating_reply (sent_prompt [] [] [] [])) [] =
     Inr (py_join (ascii ''HEADLINE:'') [[], ascii '' '', ascii '' Tone ''] @
          ascii ''POST:'' @ ascii '' Voice'') \<and>
   generate_one_variant (replying_llm repeating_reply) [] [] [] [] =
     Inr \<lparr>headline = ascii ''Tone'', body = ascii ''Voice''\<rparr>"
proof -
  let ?segs = "[ascii ''###'' @ NL, NL @ ascii ''Tone is a system'' @ NL @ NL]"
  let ?rest = "NL @ ascii ''Brands speak in one voice.'' @ NL @ ascii ''###''"
  let ?segs2 = "[[], ascii '' '', ascii '' Tone '']"
  let ?rest2 = "ascii '' Voice''"
  have c1: "consume (replying_llm envelope_reply (sent_prompt [] [] [] [])) [] =
              Inr (py_join (ascii ''HEADLINE:'') ?segs @ ascii ''POST:'' @ ?rest)"
    by (simp add: consume_replying envelope_reply_def ascii_def)
  have c2: "consume (replying_llm repeating_reply (sent_prompt [] [] [] [])) [] =
              Inr (py_join (ascii ''HEADLINE:'') ?segs2 @ ascii ''POST:'' @ ?rest2)"
    by (simp add: consume_replying repeating_reply_def ascii_def)
  have a1: "list_all (\<lambda>seg. \<not> sublist (ascii ''HEADLINE:'') (seg @ butlast (ascii ''HEADLINE:'')))
              (butlast ?segs)"
    by (simp add: py_in_sublist[symmetric] ascii_def)
  have a2: "list_all (\<lambda>seg. \<not> sublist (ascii ''HEADLINE:'') (seg @ butlast (ascii ''HEADLINE:'')))
              (butlast ?segs2)"
    by (simp add: py_in_sublist[symmetric] ascii_def)
  have b1: "\<not> sublist (ascii ''HEADLINE:'') (last ?segs)"
    by (simp add: py_in_sublist[symmetric] ascii_def)
  have b2: "\<not> sublist (ascii ''HEADLINE:'') (last ?segs2)"
    by (simp add: py_in_sublist[symmetric] ascii_def)
  have p1: "\<not> sublist (ascii ''POST:'')
              (py_join (ascii ''HEADLINE:'') ?segs @ butlast (ascii ''POST:''))"
    by (simp add: py_in_sublist[symmetric] ascii_def)
  have p2: "\<not> sublist (ascii ''POST:'')
              (py_join (ascii ''HEADLINE:'') ?segs2 @ butlast (ascii ''POST:''))"
    by (simp add: py_in_sublist[symmetric] ascii_def)
  have s1: "py_strip (concat ?segs) = ascii ''###'' @ NL @ NL @ ascii ''Tone is a system''"
    and s2: "py_strip ?rest = ascii ''Brands speak in one voice.'' @ NL @ ascii ''###''"
    and s3: "py_strip (concat ?segs2) = ascii ''Tone''"
    and s4: "py_strip ?rest2 = ascii ''Voice''"
    by (simp_all add: py_strip_def py_isspace_def ascii_def)
  have n1: "?segs \<noteq> []" and n2: "?segs2 \<noteq> []"
    by simp_all
  show ?thesis
    using parser_keeps_other_envelope_text[of "replying_llm envelope_reply" "[]" "[]" "[]"
        "[]" ?segs ?rest, OF c1 n1 a1 b1 p1]
      parser_keeps_other_envelope_text[of "replying_llm repeating_reply" "[]" "[]" "[]"
        "[]" ?segs2 ?rest2, OF c2 n2 a2 b2 p2] c1 c2 s1 s2 s3 s4
    by simp
qed

text \<open>
  C10. Whatever the variant, a background of at least 5798 characters makes the composed
  prompt longer than 7000 characters, and the prompt sent to the model is then a prefix
  of the text that precedes the instruction \<open>Follow this EXACT output structure ...\<close>:
  nothing of that instruction is sent. For the three configured variants, whose labels
  and style instructions take at least 106 characters, a background of 5692 characters is
  enough. Two sources that reach their budgets of 5000 and 7000 characters give a
  background of 12002 characters.
\<close>

theorem cap_removes_output_envelope:
  "(5798 \<le> length (combined_text blog serp) \<or>
    (l, i) \<in> set VARIANTS \<and> 5692 \<le> length (combined_text blog serp) \<longrightarrow>
      7000 < length (composed_prompt l i blog serp) \<and>
      composed_prompt l i blog serp =
        (template_before_label @ l @ template_before_instr @ i @
         template_before_combined @ combined_text blog serp @ template_rule) @
        template_envelope \<and>
      prefix (sent_prompt l i blog serp)
        (template_before_label @ l @ template_before_instr @ i @
         template_before_combined @ combined_text blog serp @ template_rule)) \<and>
   (5000 \<le> length blog \<and> 7000 \<le> length serp \<longrightarrow>
      length (combined_text blog serp) = 12002)"
proof -
  define pre where "pre = template_before_label @ l @ template_before_instr @ i @
    template_before_combined @ combined_text blog serp @ template_rule"
  have eq: "composed_prompt l i blog serp = pre @ template_envelope"
    by (simp add: pre_def composed_prompt_def prompt_template_def)
  have len: "length pre = 1202 + length l + length i + length (combined_text blog serp)"
    by (simp add: pre_def length_template_before_label length_template_before_instr
        length_template_before_combined length_template_rule)
  have main: "7000 < length (composed_prompt l i blog serp) \<and>
              prefix (sent_prompt l i blog serp) pre"
    if big: "7000 \<le> length pre"
  proof -
    have long: "7000 < length (composed_prompt l i blog serp)"
      using big unfolding eq by (simp add: length_template_envelope)
    have "sent_prompt l i blog serp = take 7000 (pre @ template_envelope)"
      using long final_trim_long[of "composed_prompt l i blog serp"]
      unfolding sent_prompt_def eq by simp
    also have "\<dots> = take 7000 pre"
      using big by simp
    finally have "prefix (sent_prompt l i blog serp) pre"
      by (simp add: take_is_prefix)
    with long show ?thesis
      by simp
  qed
  have any: "7000 \<le> length pre" if "5798 \<le> length (combined_text blog serp)"
    using that len by linarith
  have configured: "7000 \<le> length pre"
    if "(l, i) \<in> set VARIANTS \<and> 5692 \<le> length (combined_text blog serp)"
    using that len length_variant[of l i] by linarith
  have budgets: "length (combined_text blog serp) = 12002"
    if "5000 \<le> length blog \<and> 7000 \<le> length serp"
    using that by (simp add: length_combined_text)
  show ?thesis
    using main any configured eq budgets unfolding pre_def by blast
qed

theorem cap_removes_output_envelope_witness:
  "(ascii ''Thought Leadership'',
    ascii ''Write a senior thought-leadership piece: big-picture insights, implications, frameworks.'')
     \<in> set VARIANTS \<and>
   5692 \<le> length (combined_text (replicate 5000 97) (replicate 690 98)) \<and>
   7000 < length (composed_prompt (ascii ''Thought Leadership'')
     (ascii ''Write a senior thought-leadership piece: big-picture insights, implications, frameworks.'')
     (replicate 5000 97) (replicate 690 98)) \<and>
   prefix (sent_prompt (ascii ''Thought Leadership'')
     (ascii ''Write a senior thought-leadership piece: big-picture insights, implications, frameworks.'')
     (replicate 5000 97) (replicate 690 98))
     (template_before_label @ ascii ''Thought Leadership'' @ template_before_instr @
      ascii ''Write a senior thought-leadership piece: big-picture insights, implications, frameworks.'' @
      template_before_combined @ combined_text (replicate 5000 97) (replicate 690 98) @
      template_rule) \<and>
   5000 \<le> length (replicate 5000 (97 :: nat)) \<and> 7000 \<le> length (replicate 7000 (98 :: nat)) \<and>
   length (combined_text (replicate 5000 97) (replicate 7000 98)) = 12002 \<and>
   5798 \<le> length (combined_text (replicate 5000 97) (replicate 7000 98)) \<and>
   7000 < length (composed_prompt [] [] (replicate 5000 97) (replicate 7000 98)) \<and>
   prefix (sent_prompt [] [] (replicate 5000 97) (replicate 7000 98))
     (template_before_label @ [] @ template_before_instr @ [] @
      template_before_combined @ combined_text (replicate 5000 97) (replicate 7000 98) @
      template_rule)"
proof -
  let ?l = "ascii ''Thought Leadership''"
  let ?i = "ascii ''Write a senior thought-leadership piece: big-picture insights, implications, frameworks.''"
  have v: "(?l, ?i) \<in> set VARIANTS"
    by (simp add: VARIANTS_def)
  have c1: "5692 \<le> length (combined_text (replicate 5000 97) (replicate 690 98))"
    by (simp add: length_combined_text)
  have c2: "5798 \<le> length (combined_text (replicate 5000 97) (replicate 7000 98))"
    by (simp add: length_combined_text)
  have b: "5000 \<le> length (replicate 5000 (97 :: nat)) \<and> 7000 \<le> length (replicate 7000 (98 :: nat))"
    by simp
  have a1: "7000 < length (composed_prompt ?l ?i (replicate 5000 97) (replicate 690 98)) \<and>
            prefix (sent_prompt ?l ?i (replicate 5000 97) (replicate 690 98))
              (template_before_label @ ?l @ template_before_instr @ ?i @
               template_before_combined @
               combined_text (replicate 5000 97) (replicate 690 98) @ template_rule)"
    using cap_removes_output_envelope[of "replicate 5000 97" "replicate 690 98" ?l ?i] v c1
    by blast
  have a2: "7000 < length (composed_prompt [] [] (replicate 5000 97) (replicate 7000 98)) \<and>
            prefix (sent_prompt [] [] (replicate 5000 97) (replicate 7000 98))
              (template_before_label @ [] @ template_before_instr @ [] @
               template_before_combined @
               combined_text (replicate 5000 97) (replicate 7000 98) @ template_rule) \<and>
            length (combined_text (replicate 5000 97) (replicate 7000 98)) = 12002"
    using cap_removes_output_envelope[of "replicate 5000 97" "replicate 7000 98" "[]" "[]"] c2 b
    by blast
  show ?thesis
    using v c1 c2 b a1 a2 by blast
qed

section \<open>The claim about entity extraction\<close>

text \<open>
  C6. For every text, the two lists that \<open>extract_entities\<close> returns are sorted and
  without duplicates. The function has no failing branch, and its result is a function
  of the text (and of the Unicode tables) alone. On the text
  \<open>jane.doe@example.com Jane Doe\<close>, whatever the Unicode tables, the e-mails are
  \<open>["jane.doe@example.com"]\<close> and the proper nouns are \<open>["Jane Doe"]\<close>.
\<close>

theorem extract_entities_sorted_distinct:
  "sorted (emails (extract_entities uw text)) \<and>
   distinct (emails (extract_entities uw text)) \<and>
   sorted (proper_nouns (extract_entities uw text)) \<and>
   distinct (proper_nouns (extract_entities uw text)) \<and>
   extract_entities uw (ascii ''jane.doe@example.com Jane Doe'') =
     \<lparr>emails = [ascii ''jane.doe@example.com''], proper_nouns = [ascii ''Jane Doe'']\<rparr>"
proof -
  have "extract_entities uw (ascii ''jane.doe@example.com Jane Doe'') =
     \<lparr>emails = [ascii ''jane.doe@example.com''], proper_nouns = [ascii ''Jane Doe'']\<rparr>"
    by (simp add: extract_entities_def re_findall_def email_regex_def proper_noun_regex_def
        ascii_def in_range_def is_chr_def is_word_def)
  then show ?thesis
    by (simp add: extract_entities_def)
qed

section \<open>The claim about the content fetcher\<close>

lemma py_join_no_separator: "py_join [] xs = concat xs"
  by (induction "[] :: pystr" xs rule: py_join.induct) simp_all

lemma py_join_eq_Nil: "list_all (\<lambda>x. x \<noteq> []) xs \<Longrightarrow> py_join sep xs = [] \<longleftrightarrow> xs = []"
  by (induction sep xs rule: py_join.induct) simp_all

lemma hd_py_join: "x \<noteq> [] \<Longrightarrow> hd (py_join sep (x # xs)) = hd x"
  by (cases xs) simp_all

lemma py_join_last_nonempty:
  "xs \<noteq> [] \<Longrightarrow> last xs \<noteq> [] \<Longrightarrow> py_join sep xs \<noteq> []"
  by (induction sep xs rule: py_join.induct) simp_all

lemma last_py_join:
  "xs \<noteq> [] \<Longrightarrow> last xs \<noteq> [] \<Longrightarrow> last (py_join sep xs) = last (last xs)"
proof (induction sep xs rule: py_join.induct)
  case (3 sep x y ys)
  then have "py_join sep (y # ys) \<noteq> []"
    using py_join_last_nonempty[of "y # ys" sep] by simp
  with 3 show ?case by simp
qed simp_all

text \<open>
  The text of a paragraph: its text nodes stripped, the empty ones dropped, joined. A
  paragraph is kept when one of its text nodes is more than white space; its text, with
  one space as the separator, is then trimmed and not empty.
\<close>

lemma get_text_nonempty:
  "get_text [] True p \<noteq> [] \<longleftrightarrow> list_ex (\<lambda>s. py_strip s \<noteq> []) p"
  by (induction p) (auto simp: get_text_def py_join_no_separator)

lemma get_text_trimmed:
  assumes "list_ex (\<lambda>s. py_strip s \<noteq> []) p"
  shows "get_text sep True p \<noteq> [] \<and> py_strip (get_text sep True p) = get_text sep True p"
proof -
  define pieces where "pieces = filter (\<lambda>s. s \<noteq> []) (map py_strip p)"
  have ne: "pieces \<noteq> []"
    using assms unfolding pieces_def by (induction p) auto
  have all: "list_all (\<lambda>x. x \<noteq> []) pieces"
    unfolding pieces_def by (simp add: list_all_iff)
  have stripped: "\<And>x. x \<in> set pieces \<Longrightarrow> \<exists>s. x = py_strip s \<and> x \<noteq> []"
    unfolding pieces_def by auto
  obtain x xs where px: "pieces = x # xs"
    using ne by (cases pieces) auto
  have t: "get_text sep True p = py_join sep pieces"
    by (simp add: get_text_def pieces_def)
  have tne: "py_join sep pieces \<noteq> []"
    using ne all by (simp add: py_join_eq_Nil)
  obtain s where s: "x = py_strip s" "x \<noteq> []"
    using stripped[of x] px by auto
  have h: "\<not> py_isspace (hd (py_join sep pieces))"
    using s py_strip_ends[of s] by (simp add: px hd_py_join)
  obtain s' where s': "last pieces = py_strip s'" "last pieces \<noteq> []"
    using stripped[of "last pieces"] ne by auto
  have l: "\<not> py_isspace (last (py_join sep pieces))"
    using s' py_strip_ends[of s'] ne by (simp add: last_py_join)
  show ?thesis
    using tne h l by (simp add: t py_strip_trimmed)
qed

text \<open>
  C7, as the code has it. When the request or its status check raises (a timeout, a
  transport error, an error status), \<open>scrape_url\<close> returns the empty string. When the
  page is fetched and parsed, it returns the texts of the paragraphs that have a text
  node with more than white space, separated by a blank line, each text trimmed and not
  empty. An exception raised by the parser is not caught: it leaves \<open>scrape_url\<close>.
\<close>

theorem scrape_url_result:
  "(http_get_ok env url = Inl e \<longrightarrow> scrape_url env url = Inr []) \<and>
   (http_get_ok env url = Inr page \<and> html_paragraphs env page = Inr ps \<longrightarrow>
      scrape_url env url =
        Inr (py_join (NL @ NL)
               (map (\<lambda>p. py_join (ascii '' '') (filter (\<lambda>s. s \<noteq> []) (map py_strip p)))
                  (filter (list_ex (\<lambda>s. py_strip s \<noteq> [])) ps))) \<and>
      list_all (\<lambda>t. t \<noteq> [] \<and> py_strip t = t)
        (map (\<lambda>p. py_join (ascii '' '') (filter (\<lambda>s. s \<noteq> []) (map py_strip p)))
           (filter (list_ex (\<lambda>s. py_strip s \<noteq> [])) ps))) \<and>
   (http_get_ok env url = Inr page \<and> html_paragraphs env page = Inl e \<longrightarrow>
      scrape_url env url = Inl e)"
proof -
  have f: "filter (\<lambda>p. get_text [] True p \<noteq> []) ps =
           filter (list_ex (\<lambda>s. py_strip s \<noteq> [])) ps"
    by (simp add: get_text_nonempty)
  have g: "get_text (ascii '' '') True =
           (\<lambda>p. py_join (ascii '' '') (filter (\<lambda>s. s \<noteq> []) (map py_strip p)))"
    by (simp add: get_text_def fun_eq_iff)
  have t: "list_all (\<lambda>t. t \<noteq> [] \<and> py_strip t = t)
             (map (get_text (ascii '' '') True) (filter (list_ex (\<lambda>s. py_strip s \<noteq> [])) ps))"
    using get_text_trimmed by (simp add: list_all_iff)
  show ?thesis
    using t unfolding g by (simp add: scrape_url_def f g)
qed

theorem scrape_url_result_witness:
  "http_get_ok sample_env (BLOG_URLS ! 1) = Inl RequestException \<and>
   scrape_url sample_env (BLOG_URLS ! 1) = Inr [] \<and>
   http_get_ok sample_env (hd BLOG_URLS) = Inr (ascii ''<p> On tone </p>'') \<and>
   html_paragraphs sample_env (ascii ''<p> On tone </p>'') = Inr [[ascii '' On tone '']] \<and>
   scrape_url sample_env (hd BLOG_URLS) = Inr (ascii ''On tone'') \<and>
   http_get_ok rejecting_env (hd BLOG_URLS) = Inr (ascii ''<p> On tone </p>'') \<and>
   html_paragraphs rejecting_env (ascii ''<p> On tone </p>'') = Inl ParserRejectedMarkup \<and>
   scrape_url rejecting_env (hd BLOG_URLS) = Inl ParserRejectedMarkup"
proof -
  have s: "py_strip (ascii '' On tone '') = ascii ''On tone''"
    by (simp add: py_strip_def py_isspace_def ascii_def)
  have n: "ascii ''On tone'' \<noteq> []"
    by (simp add: ascii_def)
  have u: "BLOG_URLS ! 1 \<noteq> hd BLOG_URLS"
    by (simp add: BLOG_URLS_def ascii_def)
  show ?thesis
    using scrape_url_result[of sample_env "BLOG_URLS ! 1" RequestException
        "ascii ''<p> On tone </p>''" "[[ascii '' On tone '']]"]
      scrape_url_result[of sample_env "hd BLOG_URLS" RequestException
        "ascii ''<p> On tone </p>''" "[[ascii '' On tone '']]"]
      scrape_url_result[of rejecting_env "hd BLOG_URLS" ParserRejectedMarkup
        "ascii ''<p> On tone </p>''" "[[ascii '' On tone '']]"]
      s n u
    by (simp add: sample_env_def rejecting_env_def)
qed

text \<open>
  The claim itself fails: the page is parsed after the \<open>try\<close> statement, so a page that
  the parser rejects makes \<open>scrape_url\<close> raise.
\<close>

theorem scrape_url_parse_failure_escapes:
  "scrape_url rejecting_env (hd BLOG_URLS) = Inl ParserRejectedMarkup"
  by (simp add: scrape_url_def rejecting_env_def sample_env_def)

section \<open>The claim about the search\<close>

lemma py_slice_to_length: "0 \<le> n \<Longrightarrow> length (py_slice_to n xs) \<le> nat n"
  by (simp add: py_slice_to_def)

lemma organic_results_length:
  "organic_results data num = Inr items \<Longrightarrow> 0 \<le> num \<Longrightarrow> length items \<le> nat num"
  unfolding organic_results_def
  by (auto split: json.splits option.splits simp: py_slice_to_length)

lemma collect_links_spec:
  "collect_links env items acc = Inr links \<Longrightarrow>
   \<exists>new. links = acc @ new \<and> length new \<le> length items \<and>
         list_all (validators_url env) new"
proof (induction items arbitrary: acc)
  case Nil
  then show ?case by simp
next
  case (Cons item items)
  from Cons.prems obtain acc' where
    step: "collect_links env items acc' = Inr links"
      and acc': "acc' = acc \<or> (\<exists>s. acc' = acc @ [s] \<and> validators_url env s)"
    by (auto split: json.splits option.splits if_splits)
  from Cons.IH[OF step] obtain new where
    new: "links = acc' @ new" "length new \<le> length items" "list_all (validators_url env) new"
    by blast
  from acc' show ?case
  proof
    assume "acc' = acc"
    with new show ?thesis by auto
  next
    assume "\<exists>s. acc' = acc @ [s] \<and> validators_url env s"
    then obtain s where "acc' = acc @ [s]" "validators_url env s" by blast
    with new have "links = acc @ (s # new) \<and> length (s # new) \<le> length (item # items) \<and>
                   list_all (validators_url env) (s # new)"
      by simp
    then show ?thesis by blast
  qed
qed

lemma serpapi_search_cases:
  "serpapi_search env query num = [] \<or>
   (\<exists>data items. serp_get_json env query num = Inr data \<and>
      organic_results data num = Inr items \<and>
      collect_links env items [] = Inr (serpapi_search env query num))"
  by (auto simp: serpapi_search_def split: option.splits sum.splits)

text \<open>
  C8. Without a search key (unset or empty), and when the request fails,
  \<open>serpapi_search\<close> returns the empty list; it has no failing branch. For a cap that is
  not negative it returns at most that many links, at most five for the default cap, and
  every link it returns is one that \<open>validators.url\<close> accepts.
\<close>

theorem serpapi_search_soft_fail_and_cap:
  "(SERPAPI_KEY env = None \<or> SERPAPI_KEY env = Some [] \<longrightarrow>
      serpapi_search env query num = []) \<and>
   (serp_get_json env query num = Inl e \<longrightarrow> serpapi_search env query num = []) \<and>
   (0 \<le> num \<longrightarrow> length (serpapi_search env query num) \<le> nat num) \<and>
   length (serpapi_search env query 5) \<le> 5 \<and>
   list_all (validators_url env) (serpapi_search env query num)"
proof -
  have cap: "length (serpapi_search env query n) \<le> nat n" if "0 \<le> n" for n
    using serpapi_search_cases[of env query n]
  proof
    assume "serpapi_search env query n = []"
    then show ?thesis by simp
  next
    assume "\<exists>data items. serp_get_json env query n = Inr data \<and>
      organic_results data n = Inr items \<and>
      collect_links env items [] = Inr (serpapi_search env query n)"
    then obtain data items where
      o: "organic_results data n = Inr items"
      and c: "collect_links env items [] = Inr (serpapi_search env query n)"
      by blast
    from collect_links_spec[OF c] have "length (serpapi_search env query n) \<le> length items"
      by auto
    with organic_results_length[OF o that] show ?thesis by simp
  qed
  have valid: "list_all (validators_url env) (serpapi_search env query num)"
    using serpapi_search_cases[of env query num]
  proof
    assume "serpapi_search env query num = []"
    then show ?thesis by simp
  next
    assume "\<exists>data items. serp_get_json env query num = Inr data \<and>
      organic_results data num = Inr items \<and>
      collect_links env items [] = Inr (serpapi_search env query num)"
    then obtain items where
      c: "collect_links env items [] = Inr (serpapi_search env query num)"
      by blast
    from collect_links_spec[OF c] show ?thesis by auto
  qed
  have five: "length (serpapi_search env query 5) \<le> 5"
    using cap[of 5] by simp
  have key: "SERPAPI_KEY env = None \<or> SERPAPI_KEY env = Some [] \<longrightarrow>
      serpapi_search env query num = []"
    by (auto simp: serpapi_search_def)
  have request: "serp_get_json env query num = Inl e \<longrightarrow> serpapi_search env query num = []"
    by (auto simp: serpapi_search_def split: option.splits)
  show ?thesis
    using key request cap[of num] valid five by blast
qed

theorem serpapi_search_soft_fail_and_cap_witness:
  "SERPAPI_KEY sample_env = None \<and>
   serpapi_search sample_env (ascii ''On tone'') 5 = [] \<and>
   serp_get_json unreachable_search_env (ascii ''On tone'') 5 = Inl RequestException \<and>
   serpapi_search unreachable_search_env (ascii ''On tone'') 5 = [] \<and>
   (0 :: int) \<le> 5 \<and>
   serpapi_search search_env (ascii ''On tone'') 5 =
     [ascii ''https://a.example/one'', ascii ''https://b.example/two''] \<and>
   length (serpapi_search search_env (ascii ''On tone'') 5) \<le> nat 5 \<and>
   list_all (validators_url search_env) (serpapi_search search_env (ascii ''On tone'') 5)"
proof -
  have r: "serpapi_search search_env (ascii ''On tone'') 5 =
     [ascii ''https://a.example/one'', ascii ''https://b.example/two'']"
    by (simp add: serpapi_search_def search_env_def sample_env_def search_reply_def
        organic_results_def py_slice_to_def ascii_def)
  show ?thesis
    using serpapi_search_soft_fail_and_cap[of sample_env "ascii ''On tone''" 5 RequestException]
      serpapi_search_soft_fail_and_cap[of unreachable_search_env "ascii ''On tone''" 5
        RequestException]
      serpapi_search_soft_fail_and_cap[of search_env "ascii ''On tone''" 5 RequestException]
      r
    by (simp add: sample_env_def unreachable_search_env_def search_env_def)
qed

section \<open>The claims about the result store\<close>

text \<open>
  C2, on the code. For a store that does not exist, \<open>init_excel\<close> creates the sheet
  \<open>linkedin\<close> with its header of seven columns, and the sheet \<open>serp_debug\<close> with no row at
  all: the header of three columns is written by \<open>save_serp_debug\<close> only when the sheet is
  missing, so after \<open>init_excel\<close> the first row of \<open>serp_debug\<close> is the first debug record.
  On a store that exists, \<open>init_excel\<close> changes nothing.
\<close>

theorem init_excel_debug_sheet_has_no_header:
  "init_excel None =
     Some [(ascii ''linkedin'', [linkedin_header]), (ascii ''serp_debug'', [])] \<and>
   length linkedin_header = 7 \<and>
   sheet_rows (ascii ''serp_debug'') (init_excel None) = [] \<and>
   save_serp_debug (init_excel None) url serp_links serp_text =
     Inr (Some [(ascii ''linkedin'', [linkedin_header]),
                (ascii ''serp_debug'', [[url, json_dumps serp_links, take 5000 serp_text]])]) \<and>
   init_excel (Some wb) = Some wb"
  by (simp add: init_excel_def sheet_rows_def save_serp_debug_def sheet_append_def
      linkedin_header_def ascii_def)

lemma map_of_sheet_append:
  "map_of (sheet_append title r wb) k =
     (if k = title then map_option (\<lambda>rows. rows @ [r]) (map_of wb title) else map_of wb k)"
  by (induction wb) (auto simp: sheet_append_def)

lemma sheet_titles_differ: "ascii ''linkedin'' \<noteq> ascii ''serp_debug''"
  by (simp add: ascii_def)

lemma has_sheet_Some: "has_sheet title (Some wb) \<longleftrightarrow> map_of wb title \<noteq> None"
  by (simp add: has_sheet_def map_of_eq_None_iff)

lemma append_to_excel_row_rows:
  assumes "append_to_excel_row st r = Inr st'"
  shows "sheet_rows (ascii ''linkedin'') st' = sheet_rows (ascii ''linkedin'') st @ [output_cells r] \<and>
         sheet_rows (ascii ''serp_debug'') st' = sheet_rows (ascii ''serp_debug'') st \<and>
         has_sheet (ascii ''serp_debug'') st' = has_sheet (ascii ''serp_debug'') st"
proof -
  from assms obtain wb rows where
    "st = Some wb" "map_of wb (ascii ''linkedin'') = Some rows"
    "st' = Some (sheet_append (ascii ''linkedin'') (output_cells r) wb)"
    by (auto simp: append_to_excel_row_def split: option.splits)
  then show ?thesis
    using sheet_titles_differ sheet_titles_differ[symmetric]
    by (simp add: sheet_rows_def has_sheet_Some map_of_sheet_append)
qed

lemma save_serp_debug_rows:
  assumes "save_serp_debug st url serp_links serp_text = Inr st'"
  shows "sheet_rows (ascii ''serp_debug'') st' =
           sheet_rows (ascii ''serp_debug'') st @
           (if has_sheet (ascii ''serp_debug'') st then [] else [serp_debug_header]) @
           [[url, json_dumps serp_links, take 5000 serp_text]] \<and>
         sheet_rows (ascii ''linkedin'') st' = sheet_rows (ascii ''linkedin'') st \<and>
         has_sheet (ascii ''serp_debug'') st'"
proof -
  from assms obtain wb where st: "st = Some wb"
    by (auto simp: save_serp_debug_def split: option.splits)
  show ?thesis
  proof (cases "ascii ''serp_debug'' \<in> set (map fst wb)")
    case True
    then obtain rows where rows: "map_of wb (ascii ''serp_debug'') = Some rows"
      by (metis map_of_eq_None_iff not_Some_eq set_map)
    have "st' = Some (sheet_append (ascii ''serp_debug'')
                        [url, json_dumps serp_links, take 5000 serp_text] wb)"
      using assms st True by (simp add: save_serp_debug_def)
    then show ?thesis
      using st rows sheet_titles_differ sheet_titles_differ[symmetric]
      by (simp add: sheet_rows_def has_sheet_Some map_of_sheet_append)
  next
    case False
    then have none: "map_of wb (ascii ''serp_debug'') = None"
      by (simp add: map_of_eq_None_iff)
    have sd: "map_of (wb @ [(ascii ''serp_debug'', [])]) (ascii ''serp_debug'') = Some []"
      using none by (simp add: map_add_def)
    have li: "map_of (wb @ [(ascii ''serp_debug'', [])]) (ascii ''linkedin'') =
              map_of wb (ascii ''linkedin'')"
      using sheet_titles_differ by (simp add: map_add_def split: option.splits)
    have "st' = Some (sheet_append (ascii ''serp_debug'')
                        [url, json_dumps serp_links, take 5000 serp_text]
                        (sheet_append (ascii ''serp_debug'') serp_debug_header
                           (wb @ [(ascii ''serp_debug'', [])])))"
      using assms st False by (simp add: save_serp_debug_def)
    then show ?thesis
      using st none sd li sheet_titles_differ sheet_titles_differ[symmetric]
      by (simp add: sheet_rows_def has_sheet_Some map_of_sheet_append)
  qed
qed

lemma variants_loop_rows:
  "variants_loop llm url blog_text serp_text ents serp_links vs st = Inr st' \<Longrightarrow>
   \<exists>out. sheet_rows (ascii ''linkedin'') st' = sheet_rows (ascii ''linkedin'') st @ out \<and>
         map (take 2) out = map (\<lambda>v. [url, fst v]) vs \<and>
         sheet_rows (ascii ''serp_debug'') st' = sheet_rows (ascii ''serp_debug'') st \<and>
         has_sheet (ascii ''serp_debug'') st' = has_sheet (ascii ''serp_debug'') st"
proof (induction vs arbitrary: st)
  case Nil
  then show ?case by simp
next
  case (Cons v vs)
  obtain variant_label variant_instr where v: "v = (variant_label, variant_instr)"
    by (cases v)
  from Cons.prems v obtain result where
    g: "generate_one_variant llm variant_label variant_instr blog_text serp_text = Inr result"
    by (auto split: sum.splits)
  with Cons.prems v obtain st1 where
    a: "append_to_excel_row st
          \<lparr>row_source_url = url, row_variant = variant_label,
           row_headline = headline result, row_body = body result,
           row_serp_emails = emails ents, row_serp_proper_nouns = proper_nouns ents,
           row_serp_links = serp_links\<rparr> = Inr st1"
    and rest: "variants_loop llm url blog_text serp_text ents serp_links vs st1 = Inr st'"
    by (auto split: sum.splits)
  from Cons.IH[OF rest] obtain out where
    out: "sheet_rows (ascii ''linkedin'') st' = sheet_rows (ascii ''linkedin'') st1 @ out"
      "map (take 2) out = map (\<lambda>v. [url, fst v]) vs"
      "sheet_rows (ascii ''serp_debug'') st' = sheet_rows (ascii ''serp_debug'') st1"
      "has_sheet (ascii ''serp_debug'') st' = has_sheet (ascii ''serp_debug'') st1"
    by blast
  let ?r = "output_cells
          \<lparr>row_source_url = url, row_variant = variant_label,
           row_headline = headline result, row_body = body result,
           row_serp_emails = emails ents, row_serp_proper_nouns = proper_nouns ents,
           row_serp_links = serp_links\<rparr>"
  have "take 2 ?r = [url, fst v]"
    by (simp add: output_cells_def v)
  with out append_to_excel_row_rows[OF a]
  have "sheet_rows (ascii ''linkedin'') st' = sheet_rows (ascii ''linkedin'') st @ (?r # out) \<and>
        map (take 2) (?r # out) = map (\<lambda>v. [url, fst v]) (v # vs) \<and>
        sheet_rows (ascii ''serp_debug'') st' = sheet_rows (ascii ''serp_debug'') st \<and>
        has_sheet (ascii ''serp_debug'') st' = has_sheet (ascii ''serp_debug'') st"
    by simp
  then show ?case by blast
qed

lemma process_url_skipped:
  "process_url env llm url st = Inr st' \<Longrightarrow> \<not> fetched env url \<Longrightarrow> st' = st"
  by (auto simp: process_url_def fetched_def Let_def split: sum.splits if_splits)

lemma process_url_rows:
  assumes "process_url env llm url st = Inr st'" and "fetched env url"
  shows "\<exists>d out.
           sheet_rows (ascii ''serp_debug'') st' =
             sheet_rows (ascii ''serp_debug'') st @
             (if has_sheet (ascii ''serp_debug'') st then [] else [serp_debug_header]) @ [d] \<and>
           hd d = url \<and>
           sheet_rows (ascii ''linkedin'') st' = sheet_rows (ascii ''linkedin'') st @ out \<and>
           map (take 2) out = map (\<lambda>v. [url, fst v]) VARIANTS \<and>
           has_sheet (ascii ''serp_debug'') st'"
proof -
  from assms obtain blog_text serp_text st1 where
    s: "save_serp_debug st url (serpapi_search env (take 80 blog_text) 5) serp_text = Inr st1"
    and v: "variants_loop llm url blog_text serp_text
              (extract_entities (unicode_word env) serp_text)
              (serpapi_search env (take 80 blog_text) 5) VARIANTS st1 = Inr st'"
    by (auto simp: process_url_def fetched_def Let_def split: sum.splits if_splits)
  from variants_loop_rows[OF v] obtain out where
    out: "sheet_rows (ascii ''linkedin'') st' = sheet_rows (ascii ''linkedin'') st1 @ out"
      "map (take 2) out = map (\<lambda>v. [url, fst v]) VARIANTS"
      "sheet_rows (ascii ''serp_debug'') st' = sheet_rows (ascii ''serp_debug'') st1"
      "has_sheet (ascii ''serp_debug'') st' = has_sheet (ascii ''serp_debug'') st1"
    by blast
  let ?d = "[url, json_dumps (serpapi_search env (take 80 blog_text) 5), take 5000 serp_text]"
  from out save_serp_debug_rows[OF s]
  have "sheet_rows (ascii ''serp_debug'') st' =
             sheet_rows (ascii ''serp_debug'') st @
             (if has_sheet (ascii ''serp_debug'') st then [] else [serp_debug_header]) @ [?d] \<and>
           hd ?d = url \<and>
           sheet_rows (ascii ''linkedin'') st' = sheet_rows (ascii ''linkedin'') st @ out \<and>
           map (take 2) out = map (\<lambda>v. [url, fst v]) VARIANTS \<and>
           has_sheet (ascii ''serp_debug'') st'"
    by simp
  then show ?thesis by blast
qed

lemma urls_loop_rows:
  "urls_loop env llm urls st = Inr st' \<Longrightarrow>
   \<exists>debug_rows output_rows.
     sheet_rows (ascii ''serp_debug'') st' =
       sheet_rows (ascii ''serp_debug'') st @
       (if has_sheet (ascii ''serp_debug'') st \<or> filter (fetched env) urls = [] then []
        else [serp_debug_header]) @ debug_rows \<and>
     sheet_rows (ascii ''linkedin'') st' = sheet_rows (ascii ''linkedin'') st @ output_rows \<and>
     map hd debug_rows = filter (fetched env) urls \<and>
     map (take 2) output_rows =
       concat (map (\<lambda>url. map (\<lambda>v. [url, fst v]) VARIANTS) (filter (fetched env) urls))"
proof (induction urls arbitrary: st)
  case Nil
  then show ?case by simp
next
  case (Cons url urls)
  from Cons.prems obtain st1 where
    p: "process_url env llm url st = Inr st1"
    and rest: "urls_loop env llm urls st1 = Inr st'"
    by (auto split: sum.splits)
  from Cons.IH[OF rest] obtain dbg out where
    ih: "sheet_rows (ascii ''serp_debug'') st' =
           sheet_rows (ascii ''serp_debug'') st1 @
           (if has_sheet (ascii ''serp_debug'') st1 \<or> filter (fetched env) urls = [] then []
            else [serp_debug_header]) @ dbg"
      "sheet_rows (ascii ''linkedin'') st' = sheet_rows (ascii ''linkedin'') st1 @ out"
      "map hd dbg = filter (fetched env) urls"
      "map (take 2) out =
         concat (map (\<lambda>url. map (\<lambda>v. [url, fst v]) VARIANTS) (filter (fetched env) urls))"
    by blast
  show ?case
  proof (cases "fetched env url")
    case False
    with process_url_skipped[OF p] have "st1 = st" by simp
    with ih False show ?thesis by auto
  next
    case True
    from process_url_rows[OF p True] obtain d out1 where
      one: "sheet_rows (ascii ''serp_debug'') st1 =
              sheet_rows (ascii ''serp_debug'') st @
              (if has_sheet (ascii ''serp_debug'') st then [] else [serp_debug_header]) @ [d]"
        "hd d = url"
        "sheet_rows (ascii ''linkedin'') st1 = sheet_rows (ascii ''linkedin'') st @ out1"
        "map (take 2) out1 = map (\<lambda>v. [url, fst v]) VARIANTS"
        "has_sheet (ascii ''serp_debug'') st1"
      by blast
    from ih one True
    have "sheet_rows (ascii ''serp_debug'') st' =
            sheet_rows (ascii ''serp_debug'') st @
            (if has_sheet (ascii ''serp_debug'') st \<or> filter (fetched env) (url # urls) = []
             then [] else [serp_debug_header]) @ (d # dbg) \<and>
          sheet_rows (ascii ''linkedin'') st' =
            sheet_rows (ascii ''linkedin'') st @ (out1 @ out) \<and>
          map hd (d # dbg) = filter (fetched env) (url # urls) \<and>
          map (take 2) (out1 @ out) =
            concat (map (\<lambda>url. map (\<lambda>v. [url, fst v]) VARIANTS)
                      (filter (fetched env) (url # urls)))"
      by simp
    then show ?thesis by blast
  qed
qed

text \<open>
  C1, as the code has it. In a run that loads the model and ends normally, the rows
  appended to the sheet \<open>serp_debug\<close> after initialization are, besides its header when the
  sheet had to be created, exactly one debug record for each source item whose fetch
  returned text that is not empty, in the order of the URL list and with that item's URL
  first; the rows appended to the sheet \<open>linkedin\<close> are exactly three output records for
  each such item, one for each of the three variants in their order, with the item's URL
  and the variant's label first. An item whose fetch returned the empty text adds no row.
\<close>

theorem records_per_source_item:
  assumes "load_llm env = Inr (Some llm)" and "main env st = Inr st'"
  shows "\<exists>debug_rows output_rows.
     sheet_rows (ascii ''serp_debug'') st' =
       sheet_rows (ascii ''serp_debug'') (init_excel st) @
       (if has_sheet (ascii ''serp_debug'') (init_excel st) \<or>
           filter (fetched env) BLOG_URLS = [] then []
        else [serp_debug_header]) @ debug_rows \<and>
     sheet_rows (ascii ''linkedin'') st' =
       sheet_rows (ascii ''linkedin'') (init_excel st) @ output_rows \<and>
     map hd debug_rows = filter (fetched env) BLOG_URLS \<and>
     map (take 2) output_rows =
       concat (map (\<lambda>url. map (\<lambda>v. [url, fst v]) VARIANTS) (filter (fetched env) BLOG_URLS)) \<and>
     length debug_rows = length (filter (fetched env) BLOG_URLS) \<and>
     length output_rows = 3 * length (filter (fetched env) BLOG_URLS) \<and>
     length VARIANTS = 3"
proof -
  have loop: "urls_loop env llm BLOG_URLS (init_excel st) = Inr st'"
    using assms by (simp add: main_def)
  from urls_loop_rows[OF loop] obtain debug_rows output_rows where
    r: "sheet_rows (ascii ''serp_debug'') st' =
       sheet_rows (ascii ''serp_debug'') (init_excel st) @
       (if has_sheet (ascii ''serp_debug'') (init_excel st) \<or>
           filter (fetched env) BLOG_URLS = [] then []
        else [serp_debug_header]) @ debug_rows"
     "sheet_rows (ascii ''linkedin'') st' =
       sheet_rows (ascii ''linkedin'') (init_excel st) @ output_rows"
     "map hd debug_rows = filter (fetched env) BLOG_URLS"
     "map (take 2) output_rows =
       concat (map (\<lambda>url. map (\<lambda>v. [url, fst v]) VARIANTS) (filter (fetched env) BLOG_URLS))"
    by blast
  have three: "length VARIANTS = 3"
    by (simp add: VARIANTS_def)
  have "length debug_rows = length (filter (fetched env) BLOG_URLS)"
    using r(3) by (metis length_map)
  moreover have "length (map (take 2) output_rows) = 3 * length (filter (fetched env) BLOG_URLS)"
    unfolding r(4) by (simp add: length_concat comp_def three sum_list_triv)
  then have "length output_rows = 3 * length (filter (fetched env) BLOG_URLS)"
    by simp
  ultimately show ?thesis
    using r three by blast
qed

theorem records_per_source_item_witness:
  "load_llm sample_env = Inr (Some (replying_llm envelope_reply)) \<and>
   filter (fetched sample_env) BLOG_URLS = [hd BLOG_URLS] \<and>
   (\<exists>st'. main sample_env None = Inr st' \<and>
      (\<exists>debug_rows output_rows.
         sheet_rows (ascii ''serp_debug'') st' = debug_rows \<and>
         sheet_rows (ascii ''linkedin'') st' = linkedin_header # output_rows \<and>
         map hd debug_rows = [hd BLOG_URLS] \<and>
         map (take 2) output_rows = map (\<lambda>v. [hd BLOG_URLS, fst v]) VARIANTS \<and>
         length debug_rows = 1 \<and> length output_rows = 3))"
proof -
  have l: "load_llm sample_env = Inr (Some (replying_llm envelope_reply))"
    by (simp add: load_llm_def sample_env_def ascii_def)
  have s: "py_strip (ascii '' On tone '') = ascii ''On tone''"
    by (simp add: py_strip_def py_isspace_def ascii_def)
  have s1: "scrape_url sample_env (hd BLOG_URLS) = Inr (ascii ''On tone'')"
    using s by (simp add: scrape_url_def sample_env_def get_text_def ascii_def)
  have other: "scrape_url sample_env url = Inr []" if "url \<noteq> hd BLOG_URLS" for url
    using that by (simp add: scrape_url_def sample_env_def)
  obtain u1 u2 where urls: "BLOG_URLS = [hd BLOG_URLS, u1, u2]"
    and d: "u1 \<noteq> hd BLOG_URLS" "u2 \<noteq> hd BLOG_URLS"
    by (simp add: BLOG_URLS_def ascii_def)
  have n: "ascii ''On tone'' \<noteq> []"
    by (simp add: ascii_def)
  have f: "filter (fetched sample_env) BLOG_URLS = [hd BLOG_URLS]"
    by (subst urls) (simp add: fetched_def s1 other d n)
  have g: "\<And>l i b t. generate_one_variant (replying_llm envelope_reply) l i b t =
             parse_generated (concat envelope_reply)"
    by (simp add: generate_one_variant_def consume_replying)
  obtain post where post: "parse_generated (concat envelope_reply) = Inr post"
    using parse_generated_present[of "concat envelope_reply"]
    by (auto simp: py_in_sublist[symmetric] envelope_reply_def ascii_def)
  have k: "serpapi_search sample_env q 5 = []" for q
    by (simp add: serpapi_search_def sample_env_def)
  have p2: "process_url sample_env llm u x = Inr x" if "u \<noteq> hd BLOG_URLS" for llm u x
    using that by (simp add: process_url_def other)
  have "\<exists>st'. process_url sample_env (replying_llm envelope_reply) (hd BLOG_URLS)
                (init_excel None) = Inr st'"
    using n by (simp add: process_url_def s1 k Let_def save_serp_debug_def init_excel_def
        VARIANTS_def g post append_to_excel_row_def sheet_append_def)
  then obtain st' where p1: "process_url sample_env (replying_llm envelope_reply) (hd BLOG_URLS)
                (init_excel None) = Inr st'"
    by blast
  have m: "main sample_env None = Inr st'"
    by (subst main_def, subst urls) (simp add: l p1 p2 d)
  have h: "has_sheet (ascii ''serp_debug'') (init_excel None)"
    by (simp add: has_sheet_def init_excel_def)
  have r0: "sheet_rows (ascii ''serp_debug'') (init_excel None) = []"
    "sheet_rows (ascii ''linkedin'') (init_excel None) = [linkedin_header]"
    by (simp_all add: sheet_rows_def init_excel_def ascii_def)
  show ?thesis
    using records_per_source_item[OF l m] l m f h r0 by auto
qed

text \<open>
  The claim itself fails on a run that an exception ends: here the first item is fetched,
  its debug record is appended, and the \<open>RuntimeError\<close> of the first generation leaves
  \<open>main\<close> before any output record is written.
\<close>

theorem aborted_run_leaves_item_without_outputs:
  "fetched aborting_env (hd BLOG_URLS) \<and>
   main aborting_env None =
     Inl (RuntimeError,
          Some [(ascii ''linkedin'', [linkedin_header]),
                (ascii ''serp_debug'', [[hd BLOG_URLS, ascii ''[]'', []]])])"
proof -
  have s: "py_strip (ascii '' On tone '') = ascii ''On tone''"
    by (simp add: py_strip_def py_isspace_def ascii_def)
  have s1: "scrape_url aborting_env (hd BLOG_URLS) = Inr (ascii ''On tone'')"
    using s by (simp add: scrape_url_def aborting_env_def sample_env_def get_text_def ascii_def)
  have n: "ascii ''On tone'' \<noteq> []"
    by (simp add: ascii_def)
  have l: "load_llm aborting_env = Inr (Some (raising_llm RuntimeError))"
    by (simp add: load_llm_def aborting_env_def sample_env_def ascii_def)
  have k: "serpapi_search aborting_env q 5 = []" for q
    by (simp add: serpapi_search_def aborting_env_def sample_env_def)
  have g: "generate_one_variant (raising_llm RuntimeError) a b c d = Inl RuntimeError"
    for a b c d
    by (simp add: generate_one_variant_def raising_llm_def)
  have j: "json_dumps [] = ascii ''[]''"
    by (simp add: json_dumps_def ascii_def)
  have p: "process_url aborting_env (raising_llm RuntimeError) (hd BLOG_URLS) (init_excel None) =
     Inl (RuntimeError,
          Some [(ascii ''linkedin'', [linkedin_header]),
                (ascii ''serp_debug'', [[hd BLOG_URLS, ascii ''[]'', []]])])"
    using n sheet_titles_differ
    by (simp add: process_url_def s1 k j Let_def save_serp_debug_def init_excel_def
        VARIANTS_def g sheet_append_def)
  obtain u1 u2 where urls: "BLOG_URLS = [hd BLOG_URLS, u1, u2]"
    by (simp add: BLOG_URLS_def)
  have "main aborting_env None =
     Inl (RuntimeError,
          Some [(ascii ''linkedin'', [linkedin_header]),
                (ascii ''serp_debug'', [[hd BLOG_URLS, ascii ''[]'', []]])])"
    by (subst main_def, subst urls) (simp add: l p)
  then show ?thesis
    using s1 n by (simp add: fetched_def)
qed

end
